theory Spec2Isabelle
  imports Main "HOL-Library.Sublist" "HOL-Library.Char_ord" "HOL-Library.List_Lexorder"
    "HOL-Library.Multiset"
begin

section \<open>The registry validator \<open>scripts/validate_registry.py\<close>\<close>

text \<open>
  The script walks a directory of package descriptors (JSON files), checks every
  descriptor and every release in it, and stops the process at the first violated rule
  (\<open>fail\<close> prints one line and calls \<open>sys.exit(1)\<close>). With \<open>--offline\<close> it stops after
  the checks on the file itself; otherwise it asks the hosting API for the repository's
  licence.

  The embedding follows the script function by function. A run ends in one of three
  ways: it returns, it leaves through \<open>fail\<close>, or a Python exception that nothing catches
  ends it. The last two are the two constructors of \<open>abort\<close>.

  Python strings are modelled as \<open>string\<close>, the lists of 8-bit code points. On these
  code points the class \<open>\d\<close> of Python's \<open>re\<close> is exactly \<open>0-9\<close>.
\<close>

subsection \<open>JSON values as Python sees them\<close>

text \<open>
  \<open>json.loads\<close> yields \<open>None\<close>, \<open>bool\<close>, \<open>int\<close>, \<open>float\<close>, \<open>str\<close>, \<open>list\<close> and
  \<open>dict\<close>. A float is kept as \<open>Finite m e\<close> for the value \<open>m * 2 ^ e\<close>, or as one of
  the three special values that \<open>json.loads\<close> also reads. A dict is the list of its items;
  \<open>json.loads\<close> never leaves a key twice, and a lookup takes the first binding.
\<close>

datatype pyfloat = Finite int int | PosInf | NegInf | NaN

datatype json =
    JNull
  | JBool bool
  | JInt int
  | JFloat pyfloat
  | JStr string
  | JArr "json list"
  | JObj "(string \<times> json) list"

subsection \<open>Failures and results\<close>

text \<open>
  One constructor for each call of \<open>fail\<close> in the script, in the order of the source,
  carrying the values the message interpolates. The spec's names for them:
  \<open>MissingField\<close> is \<open>Release_missing_key\<close> and \<open>Missing_key\<close>;
  \<open>DuplicateVersion\<close> is \<open>Duplicate_release_version\<close>;
  \<open>InvalidRange\<close> is \<open>Tested_on_below_min\<close>;
  \<open>NameMismatch\<close> is \<open>Name_mismatch\<close>;
  \<open>ProvenanceUnavailable\<close> is \<open>Lookup_failed_status\<close> and \<open>Lookup_failed\<close>;
  \<open>LicenseRejected\<close> is \<open>License_not_MIT\<close>;
  \<open>EmptyRegistry\<close> is \<open>No_package_files\<close>;
  \<open>InvalidFilename\<close> is \<open>Invalid_package_filename\<close>;
  \<open>DuplicatePackage\<close> is \<open>Duplicate_package\<close>.
\<close>

datatype failure =
    Release_missing_key string nat string
      \<comment> \<open>\<open>{package_name}: release[{rel_idx}] missing '{key}'\<close>\<close>
  | Version_not_semver string nat
      \<comment> \<open>\<open>release[{rel_idx}].version must be semver (e.g. 1.0.0)\<close>\<close>
  | Duplicate_release_version string json
      \<comment> \<open>\<open>{package_name}: duplicate release version: {version}\<close>\<close>
  | ReleasedAt_not_date string nat
      \<comment> \<open>\<open>release[{rel_idx}].releasedAt must be YYYY-MM-DD\<close>\<close>
  | Compiler_drop_not_object string nat
      \<comment> \<open>\<open>release[{rel_idx}].compiler-drop must be an object\<close>\<close>
  | Min_invalid string nat
      \<comment> \<open>\<open>release[{rel_idx}].compiler-drop.min must be >= 1\<close>\<close>
  | Tested_on_invalid string nat
      \<comment> \<open>\<open>release[{rel_idx}].compiler-drop.tested-on must be an integer >= 1\<close>\<close>
  | Tested_on_below_min string nat
      \<comment> \<open>\<open>release[{rel_idx}].compiler-drop.tested-on must be >= min\<close>\<close>
  | Source_not_object string nat
      \<comment> \<open>\<open>release[{rel_idx}].source must be an object\<close>\<close>
  | Commit_invalid string nat
      \<comment> \<open>\<open>release[{rel_idx}].source.commit must be a 40-char hex string\<close>\<close>
  | Sha256_invalid string nat
      \<comment> \<open>\<open>release[{rel_idx}].source.sha256 must be a 64-char hex string\<close>\<close>
  | Invalid_JSON string
      \<comment> \<open>\<open>{package_name}: invalid JSON: {e}\<close>\<close>
  | Root_not_object string
      \<comment> \<open>\<open>{package_name}: root must be a JSON object\<close>\<close>
  | Missing_key string string
      \<comment> \<open>\<open>{package_name}: missing '{key}'\<close>\<close>
  | Name_mismatch string json
      \<comment> \<open>\<open>{package_name}: name field '{data['name']}' does not match filename\<close>\<close>
  | Schema_version_invalid string
      \<comment> \<open>\<open>{package_name}: schema-version must be >= 1\<close>\<close>
  | CreatedAt_not_date string
      \<comment> \<open>\<open>{package_name}: createdAt must be YYYY-MM-DD\<close>\<close>
  | Repository_not_string string
      \<comment> \<open>\<open>{package_name}: repository must be a string\<close>\<close>
  | Repository_not_github string
      \<comment> \<open>\<open>repository must be a GitHub URL like https://github.com/owner/repo\<close>\<close>
  | Releases_not_nonempty_array string
      \<comment> \<open>\<open>{package_name}: releases must be a non-empty array\<close>\<close>
  | Release_not_object string nat
      \<comment> \<open>\<open>{package_name}: release[{idx}] must be an object\<close>\<close>
  | Lookup_failed_status string int string string
      \<comment> \<open>\<open>GitHub repo lookup failed ({err.code}) for {owner}/{repo}\<close>\<close>
  | Lookup_failed string
      \<comment> \<open>\<open>{package_name}: GitHub repo lookup failed: {err}\<close>\<close>
  | License_not_MIT string json
      \<comment> \<open>\<open>license must be MIT (detected: {spdx_id or 'unknown'})\<close>\<close>
  | Packages_dir_not_found
      \<comment> \<open>\<open>packages directory not found: {PACKAGES_DIR}\<close>\<close>
  | No_package_files
      \<comment> \<open>\<open>no package files found under packages/\<close>\<close>
  | Invalid_package_filename "string list"
      \<comment> \<open>\<open>invalid package filename: {package_path}\<close>\<close>
  | Duplicate_package string
      \<comment> \<open>\<open>duplicate package detected by filename: {package_name}\<close>\<close>

datatype exn = TypeError | AttributeError | KeyError | ReadError

datatype abort = Exit failure | Uncaught exn

type_synonym 'a result = "abort + 'a"

definition fail :: "failure \<Rightarrow> 'a result" where
  "fail message = Inl (Exit message)"

definition raise :: "exn \<Rightarrow> 'a result" where
  "raise e = Inl (Uncaught e)"

definition and_then :: "'a result \<Rightarrow> ('a \<Rightarrow> 'b result) \<Rightarrow> 'b result" where
  "and_then r k = (case r of Inl a \<Rightarrow> Inl a | Inr x \<Rightarrow> k x)"

definition fail_if :: "bool result \<Rightarrow> failure \<Rightarrow> unit result" where
  \<comment> \<open>\<open>if cond: fail(message)\<close>, where evaluating \<open>cond\<close> may itself raise\<close>
  "fail_if cond message = and_then cond (\<lambda>b. if b then fail message else Inr ())"

definition or_else :: "bool \<Rightarrow> bool result \<Rightarrow> bool result" where
  \<comment> \<open>\<open>a or b\<close>: the right operand is evaluated only when the left one is false\<close>
  "or_else a b = (if a then Inr True else b)"

definition not_r :: "bool result \<Rightarrow> bool result" where
  "not_r b = and_then b (\<lambda>x. Inr (\<not> x))"

definition crashed :: "'a result \<Rightarrow> bool" where
  \<comment> \<open>the run ended in an exception that nothing caught\<close>
  "crashed r = (case r of Inl (Uncaught e) \<Rightarrow> True | _ \<Rightarrow> False)"

subsection \<open>The Python operations the script applies to JSON values\<close>

definition is_str :: "json \<Rightarrow> bool" where
  "is_str v = (case v of JStr _ \<Rightarrow> True | _ \<Rightarrow> False)"

definition is_int :: "json \<Rightarrow> bool" where
  \<comment> \<open>\<open>isinstance(v, int)\<close>: \<open>bool\<close> is a subclass of \<open>int\<close>\<close>
  "is_int v = (case v of JInt _ \<Rightarrow> True | JBool _ \<Rightarrow> True | _ \<Rightarrow> False)"

definition is_dict :: "json \<Rightarrow> bool" where
  "is_dict v = (case v of JObj _ \<Rightarrow> True | _ \<Rightarrow> False)"

definition is_list :: "json \<Rightarrow> bool" where
  "is_list v = (case v of JArr _ \<Rightarrow> True | _ \<Rightarrow> False)"

definition contains_substring :: "string \<Rightarrow> string \<Rightarrow> bool" where
  "contains_substring k s = list_ex (prefix k) (suffixes s)"

definition py_in :: "string \<Rightarrow> json \<Rightarrow> bool result" where
  \<comment> \<open>\<open>key in v\<close> for a string \<open>key\<close>\<close>
  "py_in key v =
     (case v of
        JObj d \<Rightarrow> Inr (map_of d key \<noteq> None)
      | JArr xs \<Rightarrow> Inr (list_ex (\<lambda>x. x = JStr key) xs)
      | JStr s \<Rightarrow> Inr (contains_substring key s)
      | _ \<Rightarrow> raise TypeError)"

definition py_getitem :: "json \<Rightarrow> string \<Rightarrow> json result" where
  \<comment> \<open>\<open>v[key]\<close> for a string \<open>key\<close>\<close>
  "py_getitem v key =
     (case v of
        JObj d \<Rightarrow> (case map_of d key of None \<Rightarrow> raise KeyError | Some x \<Rightarrow> Inr x)
      | _ \<Rightarrow> raise TypeError)"

definition py_get :: "json \<Rightarrow> string \<Rightarrow> json result" where
  \<comment> \<open>\<open>v.get(key)\<close>: only a dict has the method\<close>
  "py_get v key =
     (case v of
        JObj d \<Rightarrow> Inr (case map_of d key of None \<Rightarrow> JNull | Some x \<Rightarrow> x)
      | _ \<Rightarrow> raise AttributeError)"

definition py_len :: "json \<Rightarrow> nat result" where
  "py_len v =
     (case v of
        JArr xs \<Rightarrow> Inr (length xs)
      | JObj d \<Rightarrow> Inr (length d)
      | JStr s \<Rightarrow> Inr (length s)
      | _ \<Rightarrow> raise TypeError)"

definition py_iter :: "json \<Rightarrow> json list result" where
  \<comment> \<open>the items a \<open>for\<close> loop over \<open>v\<close> visits\<close>
  "py_iter v =
     (case v of
        JArr xs \<Rightarrow> Inr xs
      | JObj d \<Rightarrow> Inr (map (\<lambda>kv. JStr (fst kv)) d)
      | JStr s \<Rightarrow> Inr (map (\<lambda>c. JStr [c]) s)
      | _ \<Rightarrow> raise TypeError)"

definition num_val :: "json \<Rightarrow> pyfloat option" where
  "num_val v =
     (case v of
        JInt i \<Rightarrow> Some (Finite i 0)
      | JBool b \<Rightarrow> Some (Finite (if b then 1 else 0) 0)
      | JFloat f \<Rightarrow> Some f
      | _ \<Rightarrow> None)"

fun num_lt :: "pyfloat \<Rightarrow> pyfloat \<Rightarrow> bool" where
  "num_lt NaN _ = False"
| "num_lt _ NaN = False"
| "num_lt _ NegInf = False"
| "num_lt NegInf _ = True"
| "num_lt PosInf _ = False"
| "num_lt _ PosInf = True"
| "num_lt (Finite m e) (Finite n f) =
     (let k = min e f in m * 2 ^ nat (e - k) < n * 2 ^ nat (f - k))"

definition py_lt :: "json \<Rightarrow> json \<Rightarrow> bool result" where
  \<comment> \<open>\<open>a < b\<close>. Numbers compare by value and strings by code points; every other pair
      raises. Python also orders two lists; the model lets that pair raise as well, so
      it never crashes less often than the script. No comparison in the script gets
      there: see \<open>crashed_py_lt_int\<close>.\<close>
  "py_lt a b =
     (case (num_val a, num_val b) of
        (Some x, Some y) \<Rightarrow> Inr (num_lt x y)
      | _ \<Rightarrow> (case (a, b) of (JStr s, JStr t) \<Rightarrow> Inr (s < t) | _ \<Rightarrow> raise TypeError))"

definition truthy :: "json \<Rightarrow> bool" where
  "truthy v =
     (case v of
        JNull \<Rightarrow> False
      | JBool b \<Rightarrow> b
      | JInt i \<Rightarrow> i \<noteq> 0
      | JFloat f \<Rightarrow> (case f of Finite m e \<Rightarrow> m \<noteq> 0 | _ \<Rightarrow> True)
      | JStr s \<Rightarrow> s \<noteq> []
      | JArr xs \<Rightarrow> xs \<noteq> []
      | JObj d \<Rightarrow> d \<noteq> [])"

definition py_or :: "json \<Rightarrow> json \<Rightarrow> json" where
  \<comment> \<open>\<open>a or b\<close> on values\<close>
  "py_or a b = (if truthy a then a else b)"

definition py_match :: "(string \<Rightarrow> 'a) \<Rightarrow> json \<Rightarrow> 'a result" where
  \<comment> \<open>\<open>RE.match(v)\<close>: a compiled pattern accepts only a string\<close>
  "py_match re v = (case v of JStr s \<Rightarrow> Inr (re s) | _ \<Rightarrow> raise TypeError)"

text \<open>
  \<open>seen_versions\<close> is a \<open>set[str]\<close>. Looking a value up hashes it, which a list or a
  dict refuses; any other value that is not a string is simply not in the set. Adding a
  value that is not a string would break the annotation; the model has no such set and
  lets that case raise.
\<close>

definition set_contains :: "string set \<Rightarrow> json \<Rightarrow> bool result" where
  "set_contains S v =
     (case v of
        JStr s \<Rightarrow> Inr (s \<in> S)
      | JArr _ \<Rightarrow> raise TypeError
      | JObj _ \<Rightarrow> raise TypeError
      | _ \<Rightarrow> Inr False)"

definition set_add :: "string set \<Rightarrow> json \<Rightarrow> string set result" where
  "set_add S v = (case v of JStr s \<Rightarrow> Inr (insert s S) | _ \<Rightarrow> raise TypeError)"

subsection \<open>The compiled patterns\<close>

text \<open>
  Every pattern is anchored: \<open>match\<close> starts at the first character, and the pattern
  ends in \<open>$\<close>. In Python, \<open>$\<close> holds at the end of the string and also just before a
  newline that is the last character.

  A piece of a pattern is a function from the input that is left to the input left
  after it, \<open>None\<close> when it does not match. Repetitions are greedy. In each pattern below
  the character after a longest run cannot start what the pattern wants next, so giving
  characters back never turns a failure into a match, and the greedy choice alone
  decides.
\<close>

definition at_end :: "string \<Rightarrow> bool" where
  \<comment> \<open>\<open>$\<close>\<close>
  "at_end rest = (rest = [] \<or> rest = [CHR 0x0A])"

definition lit :: "string \<Rightarrow> string \<Rightarrow> string option" where
  "lit p s = (if prefix p s then Some (drop (length p) s) else None)"

definition exactly :: "nat \<Rightarrow> (char \<Rightarrow> bool) \<Rightarrow> string \<Rightarrow> string option" where
  \<comment> \<open>\<open>[...]{n}\<close>\<close>
  "exactly n P s = (if n \<le> length s \<and> list_all P (take n s) then Some (drop n s) else None)"

definition many1 :: "(char \<Rightarrow> bool) \<Rightarrow> string \<Rightarrow> string option" where
  \<comment> \<open>\<open>[...]+\<close>\<close>
  "many1 P s = (if takeWhile P s = [] then None else Some (dropWhile P s))"

definition between :: "nat \<Rightarrow> nat \<Rightarrow> (char \<Rightarrow> bool) \<Rightarrow> string \<Rightarrow> string option" where
  \<comment> \<open>\<open>[...]{lo,hi}\<close>\<close>
  "between lo hi P s =
     (let n = min hi (length (takeWhile P s)) in if lo \<le> n then Some (drop n s) else None)"

fun seqs :: "(string \<Rightarrow> string option) list \<Rightarrow> string \<Rightarrow> string option" where
  "seqs [] s = Some s"
| "seqs (p # ps) s = (case p s of None \<Rightarrow> None | Some rest \<Rightarrow> seqs ps rest)"

definition optional :: "(string \<Rightarrow> string option) \<Rightarrow> string \<Rightarrow> string option" where
  \<comment> \<open>\<open>(...)?\<close>\<close>
  "optional p s = (case p s of None \<Rightarrow> Some s | Some rest \<Rightarrow> Some rest)"

definition anchored :: "(string \<Rightarrow> string option) \<Rightarrow> string \<Rightarrow> bool" where
  \<comment> \<open>\<open>^...$\<close> under \<open>match\<close>\<close>
  "anchored p s = (case p s of None \<Rightarrow> False | Some rest \<Rightarrow> at_end rest)"

definition digit :: "char \<Rightarrow> bool" where
  "digit c = (c \<in> set ''0123456789'')"

definition hex :: "char \<Rightarrow> bool" where
  "hex c = (c \<in> set ''abcdefABCDEF0123456789'')"

definition lower_or_digit :: "char \<Rightarrow> bool" where
  "lower_or_digit c = (c \<in> set ''abcdefghijklmnopqrstuvwxyz0123456789'')"

definition name_char :: "char \<Rightarrow> bool" where
  "name_char c = (c \<in> set ''abcdefghijklmnopqrstuvwxyz0123456789._-'')"

definition prerelease_char :: "char \<Rightarrow> bool" where
  "prerelease_char c =
     (c \<in> set ''abcdefghijklmnopqrstuvwxyzABCDEFGHIJKLMNOPQRSTUVWXYZ0123456789.'')"

definition not_slash :: "char \<Rightarrow> bool" where
  "not_slash c = (c \<noteq> CHR ''/'')"

definition DATE_RE :: "string \<Rightarrow> bool" where
  \<comment> \<open>\<open>^\d{4}-\d{2}-\d{2}$\<close>\<close>
  "DATE_RE =
     anchored (seqs [exactly 4 digit, lit ''-'', exactly 2 digit, lit ''-'', exactly 2 digit])"

definition SHA256_RE :: "string \<Rightarrow> bool" where
  \<comment> \<open>\<open>^[a-fA-F0-9]{64}$\<close>\<close>
  "SHA256_RE = anchored (exactly 64 hex)"

definition COMMIT_RE :: "string \<Rightarrow> bool" where
  \<comment> \<open>\<open>^[a-fA-F0-9]{40}$\<close>\<close>
  "COMMIT_RE = anchored (exactly 40 hex)"

definition NAME_RE :: "string \<Rightarrow> bool" where
  \<comment> \<open>\<open>^[a-z0-9][a-z0-9._-]{1,62}$\<close>\<close>
  "NAME_RE = anchored (seqs [exactly 1 lower_or_digit, between 1 62 name_char])"

definition VERSION_RE :: "string \<Rightarrow> bool" where
  \<comment> \<open>\<open>^[0-9]+\.[0-9]+\.[0-9]+(-[a-zA-Z0-9.]+)?$\<close>\<close>
  "VERSION_RE =
     anchored (seqs [many1 digit, lit ''.'', many1 digit, lit ''.'', many1 digit,
                     optional (seqs [lit ''-'', many1 prerelease_char])])"

definition GITHUB_REPO_RE :: "string \<Rightarrow> (string \<times> string) option" where
  \<comment> \<open>\<open>^https://github\.com/([^/]+)/([^/]+)/?$\<close>; the result is (group 1, group 2)\<close>
  "GITHUB_REPO_RE s =
     (case lit ''https://github.com/'' s of
        None \<Rightarrow> None
      | Some a \<Rightarrow>
          (case seqs [many1 not_slash, lit ''/''] a of
             None \<Rightarrow> None
           | Some b \<Rightarrow>
               if anchored (seqs [many1 not_slash, optional (lit ''/'')]) b
               then Some (takeWhile not_slash a, takeWhile not_slash b)
               else None))"

subsection \<open>The formats as the spec words them\<close>

text \<open>
  The spec gives each format as a pattern that the whole string has to match. These are
  those patterns read that way, to compare with what the compiled patterns accept.
\<close>

definition spec_date :: "string \<Rightarrow> bool" where
  \<comment> \<open>\<open>\d{4}-\d{2}-\d{2}\<close>\<close>
  "spec_date s =
     (\<exists>y m d. s = y @ ''-'' @ m @ ''-'' @ d
        \<and> length y = 4 \<and> list_all digit y
        \<and> length m = 2 \<and> list_all digit m
        \<and> length d = 2 \<and> list_all digit d)"

definition spec_semver :: "string \<Rightarrow> bool" where
  \<comment> \<open>\<open>\d+\.\d+\.\d+\<close> with optional \<open>-\<close> and \<open>[a-zA-Z0-9.]+\<close>\<close>
  "spec_semver s =
     (\<exists>a b c p. s = a @ ''.'' @ b @ ''.'' @ c @ p
        \<and> a \<noteq> [] \<and> list_all digit a
        \<and> b \<noteq> [] \<and> list_all digit b
        \<and> c \<noteq> [] \<and> list_all digit c
        \<and> (p = [] \<or> (\<exists>q. p = ''-'' @ q \<and> q \<noteq> [] \<and> list_all prerelease_char q)))"

definition spec_name :: "string \<Rightarrow> bool" where
  \<comment> \<open>\<open>[a-z0-9][a-z0-9._-]{1,62}\<close>, 2 to 63 characters\<close>
  "spec_name s =
     (\<exists>c t. s = c # t \<and> lower_or_digit c
        \<and> 1 \<le> length t \<and> length t \<le> 62 \<and> list_all name_char t)"

definition path_segment :: "string \<Rightarrow> bool" where
  \<comment> \<open>an owner or a repo: one or more characters, none of them a slash\<close>
  "path_segment a = (a \<noteq> [] \<and> list_all not_slash a)"

subsection \<open>\<open>validate_release\<close>\<close>

fun require_keys :: "string list \<Rightarrow> json \<Rightarrow> (string \<Rightarrow> failure) \<Rightarrow> unit result" where
  \<comment> \<open>\<open>for key in required: if key not in v: fail(...)\<close>\<close>
  "require_keys [] v message = Inr ()"
| "require_keys (key # keys) v message =
     and_then (fail_if (not_r (py_in key v)) (message key))
       (\<lambda>_. require_keys keys v message)"

definition release_version_checks ::
  "json \<Rightarrow> string \<Rightarrow> nat \<Rightarrow> string set \<Rightarrow> string set result" where
  \<comment> \<open>lines 51 to 61; the result is \<open>seen_versions\<close> after \<open>add\<close>\<close>
  "release_version_checks release package_name rel_idx seen_versions =
     and_then (require_keys [''version'', ''compiler-drop'', ''releasedAt'', ''source'']
                 release (Release_missing_key package_name rel_idx)) (\<lambda>_.
     and_then (py_getitem release ''version'') (\<lambda>version.
     and_then (fail_if (or_else (\<not> is_str version) (not_r (py_match VERSION_RE version)))
                 (Version_not_semver package_name rel_idx)) (\<lambda>_.
     and_then (fail_if (set_contains seen_versions version)
                 (Duplicate_release_version package_name version)) (\<lambda>_.
     set_add seen_versions version))))"

definition released_at_check :: "json \<Rightarrow> string \<Rightarrow> nat \<Rightarrow> unit result" where
  \<comment> \<open>lines 63 to 65\<close>
  "released_at_check release package_name rel_idx =
     and_then (py_get release ''releasedAt'') (\<lambda>released_at.
     fail_if (or_else (\<not> is_str released_at) (not_r (py_match DATE_RE released_at)))
       (ReleasedAt_not_date package_name rel_idx))"

definition compiler_drop_checks :: "json \<Rightarrow> string \<Rightarrow> nat \<Rightarrow> unit result" where
  \<comment> \<open>lines 67 to 80\<close>
  "compiler_drop_checks release package_name rel_idx =
     and_then (py_get release ''compiler-drop'') (\<lambda>compiler_drop.
     and_then (fail_if (Inr (\<not> is_dict compiler_drop))
                 (Compiler_drop_not_object package_name rel_idx)) (\<lambda>_.
     and_then (py_get compiler_drop ''min'') (\<lambda>min_drop.
     and_then (py_get compiler_drop ''tested-on'') (\<lambda>tested_on.
     and_then (fail_if (or_else (\<not> is_int min_drop) (py_lt min_drop (JInt 1)))
                 (Min_invalid package_name rel_idx)) (\<lambda>_.
     and_then (fail_if (or_else (\<not> is_int tested_on) (py_lt tested_on (JInt 1)))
                 (Tested_on_invalid package_name rel_idx)) (\<lambda>_.
     fail_if (py_lt tested_on min_drop) (Tested_on_below_min package_name rel_idx)))))))"

definition source_checks :: "json \<Rightarrow> string \<Rightarrow> nat \<Rightarrow> unit result" where
  \<comment> \<open>lines 82 to 92\<close>
  "source_checks release package_name rel_idx =
     and_then (py_get release ''source'') (\<lambda>source.
     and_then (fail_if (Inr (\<not> is_dict source))
                 (Source_not_object package_name rel_idx)) (\<lambda>_.
     and_then (py_get source ''commit'') (\<lambda>commit.
     and_then (py_get source ''sha256'') (\<lambda>sha256.
     and_then (fail_if (or_else (\<not> is_str commit) (not_r (py_match COMMIT_RE commit)))
                 (Commit_invalid package_name rel_idx)) (\<lambda>_.
     fail_if (or_else (\<not> is_str sha256) (not_r (py_match SHA256_RE sha256)))
       (Sha256_invalid package_name rel_idx))))))"

text \<open>
  \<open>validate_release\<close> mutates the caller's \<open>seen_versions\<close>, so the model returns the set
  beside the outcome: the set as the call leaves it, also when the call ends in \<open>fail\<close>.
\<close>

definition validate_release ::
  "json \<Rightarrow> string \<Rightarrow> nat \<Rightarrow> string set \<Rightarrow> unit result \<times> string set" where
  "validate_release release package_name rel_idx seen_versions =
     (case release_version_checks release package_name rel_idx seen_versions of
        Inl a \<Rightarrow> (Inl a, seen_versions)
      | Inr seen' \<Rightarrow>
          (and_then (released_at_check release package_name rel_idx) (\<lambda>_.
           and_then (compiler_drop_checks release package_name rel_idx) (\<lambda>_.
           source_checks release package_name rel_idx)),
           seen'))"

subsection \<open>\<open>validate_package_file\<close>\<close>

fun validate_releases :: "json list \<Rightarrow> string \<Rightarrow> nat \<Rightarrow> string set \<Rightarrow> string set result" where
  \<comment> \<open>the loop of lines 139 to 142; the result is \<open>seen_versions\<close> after the last release\<close>
  "validate_releases [] package_name idx seen_versions = Inr seen_versions"
| "validate_releases (release # rest) package_name idx seen_versions =
     (if \<not> is_dict release then fail (Release_not_object package_name idx)
      else case validate_release release package_name idx seen_versions of
             (Inl a, _) \<Rightarrow> Inl a
           | (Inr _, seen') \<Rightarrow> validate_releases rest package_name (Suc idx) seen')"

definition strip_git :: "string \<Rightarrow> string" where
  \<comment> \<open>\<open>if repo.endswith(".git"): repo = repo[:-4]\<close>\<close>
  "strip_git repo = (if suffix ''.git'' repo then take (length repo - 4) repo else repo)"

definition descriptor_checks :: "json \<Rightarrow> string \<Rightarrow> (string \<times> string) result" where
  \<comment> \<open>lines 104 to 132; the result is \<open>(owner, repo)\<close>\<close>
  "descriptor_checks data package_name =
     and_then (fail_if (Inr (\<not> is_dict data)) (Root_not_object package_name)) (\<lambda>_.
     and_then (require_keys [''name'', ''schema-version'', ''repository'', ''releases'',
                 ''createdAt''] data (Missing_key package_name)) (\<lambda>_.
     and_then (py_getitem data ''name'') (\<lambda>name.
     and_then (fail_if (Inr (name \<noteq> JStr package_name))
                 (Name_mismatch package_name name)) (\<lambda>_.
     and_then (py_get data ''schema-version'') (\<lambda>schema_version.
     and_then (fail_if (or_else (\<not> is_int schema_version) (py_lt schema_version (JInt 1)))
                 (Schema_version_invalid package_name)) (\<lambda>_.
     and_then (py_get data ''createdAt'') (\<lambda>created_at.
     and_then (fail_if (or_else (\<not> is_str created_at) (not_r (py_match DATE_RE created_at)))
                 (CreatedAt_not_date package_name)) (\<lambda>_.
     and_then (py_getitem data ''repository'') (\<lambda>repository.
     and_then (fail_if (Inr (\<not> is_str repository))
                 (Repository_not_string package_name)) (\<lambda>_.
     and_then (py_match GITHUB_REPO_RE repository) (\<lambda>match.
     case match of
       None \<Rightarrow> fail (Repository_not_github package_name)
     | Some (owner, repo) \<Rightarrow> Inr (owner, strip_git repo))))))))))))"

definition releases_checks :: "json \<Rightarrow> string \<Rightarrow> unit result" where
  \<comment> \<open>lines 134 to 142\<close>
  "releases_checks data package_name =
     and_then (py_get data ''releases'') (\<lambda>releases.
     and_then (fail_if (or_else (\<not> is_list releases)
                          (and_then (py_len releases) (\<lambda>n. Inr (n = 0))))
                 (Releases_not_nonempty_array package_name)) (\<lambda>_.
     and_then (py_iter releases) (\<lambda>items.
     and_then (validate_releases items package_name 0 {}) (\<lambda>_. Inr ()))))"

definition offline_checks :: "json \<Rightarrow> string \<Rightarrow> (string \<times> string) result" where
  \<comment> \<open>lines 104 to 142, the part of \<open>validate_package_file\<close> that both modes run\<close>
  "offline_checks data package_name =
     and_then (descriptor_checks data package_name) (\<lambda>target.
     and_then (releases_checks data package_name) (\<lambda>_. Inr target))"

text \<open>
  The network is a parameter: \<open>api url bearer\<close> is what the request to \<open>url\<close> comes back
  with. \<open>http_json\<close> sends the bearer token only when the token is a non-empty string.
  Whatever \<open>http_json\<close> raises is caught by the caller, \<open>HTTPError\<close> with its code and
  anything else without.
\<close>

datatype http_outcome = HTTPError int | Other_exception | Response json

type_synonym api = "string \<Rightarrow> string option \<Rightarrow> http_outcome"

definition http_json :: "api \<Rightarrow> string \<Rightarrow> string option \<Rightarrow> http_outcome" where
  "http_json api url token =
     api url (case token of None \<Rightarrow> None | Some t \<Rightarrow> if t = [] then None else Some t)"

definition online_checks ::
  "api \<Rightarrow> string \<Rightarrow> string \<Rightarrow> string \<Rightarrow> string option \<Rightarrow> unit result" where
  \<comment> \<open>lines 147 to 158\<close>
  "online_checks api package_name owner repo token =
     (case http_json api (''https://api.github.com/repos/'' @ owner @ ''/'' @ repo) token of
        HTTPError code \<Rightarrow> fail (Lookup_failed_status package_name code owner repo)
      | Other_exception \<Rightarrow> fail (Lookup_failed package_name)
      | Response repo_meta \<Rightarrow>
          and_then (py_get repo_meta ''license'') (\<lambda>license.
          and_then (py_get (py_or license (JObj [])) ''spdx_id'') (\<lambda>spdx_id.
          fail_if (Inr (spdx_id \<noteq> JStr ''MIT''))
            (License_not_MIT package_name (py_or spdx_id (JStr ''unknown''))))))"

text \<open>
  A path is the list of its components. \<open>stem\<close> is \<open>pathlib\<close>'s: the last component
  without its last suffix, where a dot that starts or ends the name starts no suffix.
  Reading a file gives its parsed JSON, or \<open>json.JSONDecodeError\<close>, which the script
  catches, or another exception (the file cannot be read or is not UTF-8), which it does
  not.
\<close>

type_synonym path = "string list"

definition rfind :: "char \<Rightarrow> string \<Rightarrow> nat option" where
  "rfind c s =
     (if c \<in> set s then Some (length s - 1 - length (takeWhile (\<lambda>x. x \<noteq> c) (rev s)))
      else None)"

definition stem :: "path \<Rightarrow> string" where
  "stem p =
     (let name = (if p = [] then [] else last p) in
      case rfind CHR ''.'' name of
        None \<Rightarrow> name
      | Some i \<Rightarrow> if 0 < i \<and> i < length name - 1 then take i name else name)"

datatype file_content = Unreadable | Not_JSON | Parsed json

type_synonym filesystem = "path \<Rightarrow> file_content"

definition validate_package_file ::
  "filesystem \<Rightarrow> api \<Rightarrow> path \<Rightarrow> bool \<Rightarrow> string option \<Rightarrow> unit result" where
  "validate_package_file fs api package_path offline token =
     (let package_name = stem package_path in
      case fs package_path of
        Unreadable \<Rightarrow> raise ReadError
      | Not_JSON \<Rightarrow> fail (Invalid_JSON package_name)
      | Parsed data \<Rightarrow>
          and_then (offline_checks data package_name) (\<lambda>(owner, repo).
          if offline then Inr ()
          else online_checks api package_name owner repo token))"

subsection \<open>\<open>main\<close>\<close>

fun validate_files ::
  "filesystem \<Rightarrow> api \<Rightarrow> bool \<Rightarrow> string option \<Rightarrow> path list \<Rightarrow> string set \<Rightarrow> unit result" where
  \<comment> \<open>the loop of lines 173 to 180\<close>
  "validate_files fs api offline token [] seen_names = Inr ()"
| "validate_files fs api offline token (package_path # rest) seen_names =
     (let package_name = stem package_path in
      if \<not> NAME_RE package_name then fail (Invalid_package_filename package_path)
      else if package_name \<in> seen_names then fail (Duplicate_package package_name)
      else and_then (validate_package_file fs api package_path offline token)
             (\<lambda>_. validate_files fs api offline token rest (insert package_name seen_names)))"

text \<open>
  \<open>found\<close> is what the directory holds: \<open>None\<close> when \<open>packages/\<close> does not exist,
  otherwise the \<open>*.json\<close> paths under it in the order \<open>rglob\<close> happens to yield them.
  Paths compare component by component, and strings by code points.
\<close>

definition main ::
  "filesystem \<Rightarrow> api \<Rightarrow> bool \<Rightarrow> string option \<Rightarrow> path list option \<Rightarrow> (nat \<times> string) result"
  where
  "main fs api offline token_value found =
     (case found of
        None \<Rightarrow> fail Packages_dir_not_found
      | Some paths \<Rightarrow>
          (let package_files = sort paths in
           if package_files = [] then fail No_package_files
           else and_then (validate_files fs api offline token_value package_files {})
                  (\<lambda>_. Inr (length package_files, if offline then ''offline'' else ''online''))))"

subsection \<open>Example descriptors\<close>

text \<open>
  The descriptor of the spec's round-trip property, once with the keys the script reads
  (\<open>schema-version\<close>, \<open>compiler-drop\<close>, \<open>tested-on\<close>) and once with the keys as the spec
  spells them (\<open>schemaVersion\<close>, \<open>compilerDrop\<close>, \<open>testedOn\<close>).
\<close>

definition release_with :: "json \<Rightarrow> json \<Rightarrow> json \<Rightarrow> json" where
  "release_with version released_at compiler_drop =
     JObj [(''version'', version),
           (''releasedAt'', released_at),
           (''compiler-drop'', compiler_drop),
           (''source'', JObj [(''commit'', JStr (replicate 40 CHR ''a'')),
                              (''sha256'', JStr (replicate 64 CHR ''b''))])]"

definition drop_range :: "int \<Rightarrow> int \<Rightarrow> json" where
  "drop_range lo tested = JObj [(''min'', JInt lo), (''tested-on'', JInt tested)]"

definition minimal_release :: json where
  "minimal_release = release_with (JStr ''1.0.0'') (JStr ''2024-01-01'') (drop_range 1 1)"

definition descriptor_with :: "json \<Rightarrow> json \<Rightarrow> json list \<Rightarrow> json" where
  "descriptor_with name repository releases =
     JObj [(''name'', name),
           (''schema-version'', JInt 1),
           (''repository'', repository),
           (''createdAt'', JStr ''2024-01-01''),
           (''releases'', JArr releases)]"

definition minimal_descriptor :: json where
  "minimal_descriptor =
     descriptor_with (JStr ''abcd'') (JStr ''https://github.com/o/r'') [minimal_release]"

definition spec_spelled_descriptor :: json where
  "spec_spelled_descriptor =
     JObj [(''name'', JStr ''abcd''),
           (''schemaVersion'', JInt 1),
           (''repository'', JStr ''https://github.com/o/r''),
           (''createdAt'', JStr ''2024-01-01''),
           (''releases'', JArr [
              JObj [(''version'', JStr ''1.0.0''),
                    (''releasedAt'', JStr ''2024-01-01''),
                    (''compilerDrop'', JObj [(''min'', JInt 1), (''testedOn'', JInt 1)]),
                    (''source'', JObj [(''commit'', JStr (replicate 40 CHR ''a'')),
                                       (''sha256'', JStr (replicate 64 CHR ''b''))])]])]"

definition abcd_json :: path where
  "abcd_json = [''packages'', ''abcd.json'']"

definition every_file :: "json \<Rightarrow> filesystem" where
  \<comment> \<open>a directory in which every file holds the same descriptor\<close>
  "every_file data p = Parsed data"

definition no_network :: api where
  "no_network url bearer = Other_exception"

definition second_release :: json where
  "second_release = release_with (JStr ''1.0.0'') (JStr ''2024-02-02'') (drop_range 1 2)"

definition repeated_version_descriptor :: json where
  "repeated_version_descriptor =
     descriptor_with (JStr ''abcd'') (JStr ''https://github.com/o/r'')
       [minimal_release, second_release]"

definition unparsable :: filesystem where
  \<comment> \<open>a directory in which no file is JSON\<close>
  "unparsable p = Not_JSON"

definition two_copies :: filesystem where
  \<comment> \<open>\<open>abcd.json\<close> in two subdirectories; the copy under \<open>b\<close> names itself \<open>other\<close>\<close>
  "two_copies p =
     (if p = [''packages'', ''b'', ''abcd.json'']
      then Parsed (descriptor_with (JStr ''other'') (JStr ''https://github.com/o/r'')
                     [minimal_release])
      else Parsed minimal_descriptor)"

definition license_api :: "json \<Rightarrow> api" where
  \<comment> \<open>a hosting API that reports the given licence identifier for every repository\<close>
  "license_api spdx_id url bearer =
     Response (JObj [(''license'', JObj [(''spdx_id'', spdx_id)])])"

definition no_license_api :: api where
  \<comment> \<open>a hosting API whose answer has no \<open>license\<close> field\<close>
  "no_license_api url bearer = Response (JObj [])"

section \<open>Properties\<close>

subsection \<open>Rules for the result type and the Python operations\<close>

lemma and_then_Inl [simp]: "and_then (Inl a) k = Inl a"
  by (simp add: and_then_def)

lemma and_then_Inr [simp]: "and_then (Inr x) k = k x"
  by (simp add: and_then_def)

lemma and_then_fail [simp]: "and_then (fail m) k = fail m"
  by (simp add: fail_def)

lemma and_then_raise [simp]: "and_then (raise e) k = raise e"
  by (simp add: raise_def)

lemma fail_if_Inr [simp]: "fail_if (Inr b) m = (if b then fail m else Inr ())"
  by (simp add: fail_if_def)

lemma or_else_simps [simp]: "or_else True b = Inr True" "or_else False b = b"
  by (simp_all add: or_else_def)

lemma not_r_Inr [simp]: "not_r (Inr b) = Inr (\<not> b)"
  by (simp add: not_r_def)

lemma fail_neq [simp]: "fail m \<noteq> Inr x" "Inr x \<noteq> fail m" "fail m \<noteq> raise e" "raise e \<noteq> fail m"
  "raise e \<noteq> Inr x" "Inr x \<noteq> raise e" "(fail m = (fail m' :: 'a result)) = (m = m')"
  by (simp_all add: fail_def raise_def)

lemma py_lt_int [simp]: "py_lt (JInt a) (JInt b) = Inr (a < b)"
  by (simp add: py_lt_def num_val_def)

lemma is_simps [simp]:
  "is_int (JInt a)" "is_str (JStr s)" "is_dict (JObj d)" "is_list (JArr xs)"
  by (simp_all add: is_int_def is_str_def is_dict_def is_list_def)

lemma py_get_obj [simp]:
  "py_get (JObj d) key = Inr (case map_of d key of None \<Rightarrow> JNull | Some x \<Rightarrow> x)"
  by (simp add: py_get_def)

lemma and_then_eq_Inr: "(and_then r k = Inr y) = (\<exists>x. r = Inr x \<and> k x = Inr y)"
  by (cases r) simp_all

lemma fail_if_eq_Inr: "(fail_if c m = Inr u) = (c = Inr False)"
  by (cases c) (auto simp: fail_if_def)

lemma not_r_eq_Inr: "(not_r c = Inr b) = (c = Inr (\<not> b))"
  by (cases c) (auto simp: not_r_def)

lemma or_else_eq_False: "(or_else a b = Inr False) = (\<not> a \<and> b = Inr False)"
  by (simp add: or_else_def)

lemma py_match_eq_Inr: "(py_match re v = Inr x) = (\<exists>s. v = JStr s \<and> re s = x)"
  by (cases v) (auto simp: py_match_def)

lemma set_contains_eq_False:
  "is_str v \<Longrightarrow> (set_contains S v = Inr False) = (\<exists>s. v = JStr s \<and> s \<notin> S)"
  by (cases v) (auto simp: set_contains_def is_str_def)

lemma set_add_eq_Inr: "(set_add S v = Inr S') = (\<exists>s. v = JStr s \<and> S' = insert s S)"
  by (cases v) (auto simp: set_add_def)

lemma crashed_simps [simp]:
  "\<not> crashed (Inr x)" "\<not> crashed (fail m)" "crashed (raise e)"
  by (simp_all add: crashed_def fail_def raise_def)

lemma crashed_Inl [simp]: "crashed (Inl a) = (case a of Uncaught e \<Rightarrow> True | Exit f \<Rightarrow> False)"
  by (simp add: crashed_def split: abort.splits)

lemma crashed_and_then:
  "crashed (and_then r k) = (crashed r \<or> (\<exists>x. r = Inr x \<and> crashed (k x)))"
  by (cases r) auto

lemma crashed_fail_if: "crashed (fail_if c m) = crashed c"
  by (cases c) (auto simp: fail_if_def crashed_def fail_def)

lemma crashed_not_r: "crashed (not_r c) = crashed c"
  by (cases c) (auto simp: not_r_def crashed_def)

lemma crashed_or_else: "crashed (or_else a b) = (\<not> a \<and> crashed b)"
  by (simp add: or_else_def)

lemma crashed_py_match: "crashed (py_match re v) = (\<not> is_str v)"
  by (cases v) (simp_all add: py_match_def is_str_def)

lemma crashed_py_get: "crashed (py_get v key) = (\<not> is_dict v)"
  by (cases v) (simp_all add: py_get_def is_dict_def)

lemma crashed_py_lt_int: "is_int a \<Longrightarrow> is_int b \<Longrightarrow> \<not> crashed (py_lt a b)"
  by (cases a; cases b) (simp_all add: py_lt_def is_int_def num_val_def)

lemma crashed_py_len: "is_list v \<Longrightarrow> \<not> crashed (py_len v)"
  by (cases v) (simp_all add: py_len_def is_list_def)

lemma crashed_py_iter: "is_list v \<Longrightarrow> \<not> crashed (py_iter v)"
  by (cases v) (simp_all add: py_iter_def is_list_def)

lemma crashed_set_contains: "is_str v \<Longrightarrow> \<not> crashed (set_contains S v)"
  by (cases v) (simp_all add: set_contains_def is_str_def)

lemma crashed_set_add: "is_str v \<Longrightarrow> \<not> crashed (set_add S v)"
  by (cases v) (simp_all add: set_add_def is_str_def)

lemma require_keys_obj:
  "require_keys keys (JObj d) message =
     (case find (\<lambda>key. map_of d key = None) keys of
        None \<Rightarrow> Inr () | Some key \<Rightarrow> fail (message key))"
  by (induction keys) (auto simp: py_in_def)

lemma require_keys_Inr:
  "(require_keys keys (JObj d) message = Inr u) = (\<forall>key \<in> set keys. map_of d key \<noteq> None)"
  by (induction keys) (auto simp: py_in_def)

lemma crashed_require_keys: "\<not> crashed (require_keys keys (JObj d) message)"
  by (simp add: require_keys_obj split: option.splits)

declare require_keys.simps [simp del]

lemma py_getitem_obj [simp]:
  "py_getitem (JObj d) key = (case map_of d key of None \<Rightarrow> raise KeyError | Some x \<Rightarrow> Inr x)"
  by (simp add: py_getitem_def)

lemmas crashed_rules =
  crashed_and_then crashed_fail_if crashed_not_r crashed_or_else crashed_py_match
  crashed_py_get crashed_py_lt_int crashed_py_len crashed_py_iter crashed_set_contains
  crashed_set_add crashed_require_keys

lemmas passed_rules =
  and_then_eq_Inr fail_if_eq_Inr not_r_eq_Inr or_else_eq_False

lemma validate_package_file_Parsed:
  "fs package_path = Parsed data \<Longrightarrow>
   validate_package_file fs api package_path offline token =
     and_then (offline_checks data (stem package_path)) (\<lambda>(owner, repo).
       if offline then Inr ()
       else online_checks api (stem package_path) owner repo token)"
  by (simp add: validate_package_file_def Let_def)

subsection \<open>What the compiled patterns accept\<close>

text \<open>
  Each compiled pattern accepts the strings of the spec's format and, because of \<open>$\<close>,
  the same strings followed by one newline.
\<close>

lemma lit_eq_Some: "(lit p s = Some rest) = (s = p @ rest)"
  by (auto simp: lit_def prefix_def)

lemma exactly_eq_Some:
  "(exactly n P s = Some rest) = (\<exists>a. s = a @ rest \<and> length a = n \<and> list_all P a)"
proof
  assume "exactly n P s = Some rest"
  then have "n \<le> length s" "list_all P (take n s)" "rest = drop n s"
    by (auto simp: exactly_def split: if_splits)
  then have "s = take n s @ rest \<and> length (take n s) = n \<and> list_all P (take n s)"
    by simp
  then show "\<exists>a. s = a @ rest \<and> length a = n \<and> list_all P a"
    by blast
next
  assume "\<exists>a. s = a @ rest \<and> length a = n \<and> list_all P a"
  then show "exactly n P s = Some rest"
    by (auto simp: exactly_def)
qed

lemma many1_eq_Some:
  "(many1 P s = Some rest) =
     (\<exists>a. s = a @ rest \<and> a \<noteq> [] \<and> list_all P a \<and> (rest = [] \<or> \<not> P (hd rest)))"
proof
  assume m: "many1 P s = Some rest"
  then have "takeWhile P s \<noteq> []" "rest = dropWhile P s"
    by (auto simp: many1_def split: if_splits)
  moreover have "list_all P (takeWhile P s)"
    by (simp add: list_all_iff) (meson set_takeWhileD)
  moreover have "dropWhile P s = [] \<or> \<not> P (hd (dropWhile P s))"
    using hd_dropWhile by blast
  ultimately have "s = takeWhile P s @ rest \<and> takeWhile P s \<noteq> [] \<and> list_all P (takeWhile P s)
      \<and> (rest = [] \<or> \<not> P (hd rest))"
    by simp
  then show "\<exists>a. s = a @ rest \<and> a \<noteq> [] \<and> list_all P a \<and> (rest = [] \<or> \<not> P (hd rest))"
    by blast
next
  assume "\<exists>a. s = a @ rest \<and> a \<noteq> [] \<and> list_all P a \<and> (rest = [] \<or> \<not> P (hd rest))"
  then obtain a where a: "s = a @ rest" "a \<noteq> []" "list_all P a" "rest = [] \<or> \<not> P (hd rest)"
    by blast
  have "takeWhile P (a @ rest) = a \<and> dropWhile P (a @ rest) = rest"
  proof (cases rest)
    case Nil
    with a(3) show ?thesis by (simp add: list_all_iff)
  next
    case (Cons x xs)
    with a(4) have "\<not> P x" by simp
    with a(3) Cons show ?thesis
      by (simp add: list_all_iff takeWhile_append2 dropWhile_append2)
  qed
  with a show "many1 P s = Some rest"
    by (simp add: many1_def)
qed

lemma anchored_iff: "anchored p s = (p s = Some [] \<or> p s = Some [CHR 0x0A])"
  by (auto simp: anchored_def at_end_def split: option.splits)

lemma seqs_Cons_eq_Some:
  "(seqs (p # ps) s = Some rest) = (\<exists>mid. p s = Some mid \<and> seqs ps mid = Some rest)"
  by (auto split: option.splits)

lemma seqs_Nil_eq_Some: "(seqs [] s = Some rest) = (rest = s)"
  by auto

lemma date_pieces:
  "(seqs [exactly 4 digit, lit ''-'', exactly 2 digit, lit ''-'', exactly 2 digit] s = Some rest) =
     (\<exists>y m d. s = y @ ''-'' @ m @ ''-'' @ d @ rest
        \<and> length y = 4 \<and> list_all digit y
        \<and> length m = 2 \<and> list_all digit m
        \<and> length d = 2 \<and> list_all digit d)"
  by (simp add: seqs_Cons_eq_Some seqs_Nil_eq_Some lit_eq_Some exactly_eq_Some
      del: seqs.simps) blast

lemma date_rest:
  "(seqs [exactly 4 digit, lit ''-'', exactly 2 digit, lit ''-'', exactly 2 digit] s = Some rest) =
     (\<exists>t. s = t @ rest \<and> spec_date t)"
proof
  assume "seqs [exactly 4 digit, lit ''-'', exactly 2 digit, lit ''-'', exactly 2 digit] s = Some rest"
  then obtain y m d where s: "s = y @ ''-'' @ m @ ''-'' @ d @ rest"
    and parts: "length y = 4" "list_all digit y" "length m = 2" "list_all digit m"
      "length d = 2" "list_all digit d"
    unfolding date_pieces by blast
  from parts have "spec_date (y @ ''-'' @ m @ ''-'' @ d)"
    unfolding spec_date_def by blast
  moreover from s have "s = (y @ ''-'' @ m @ ''-'' @ d) @ rest"
    by simp
  ultimately show "\<exists>t. s = t @ rest \<and> spec_date t"
    by blast
next
  assume "\<exists>t. s = t @ rest \<and> spec_date t"
  then obtain y m d where "s = (y @ ''-'' @ m @ ''-'' @ d) @ rest"
    and parts: "length y = 4" "list_all digit y" "length m = 2" "list_all digit m"
      "length d = 2" "list_all digit d"
    unfolding spec_date_def by blast
  then have "s = y @ ''-'' @ m @ ''-'' @ d @ rest"
    by simp
  with parts
  show "seqs [exactly 4 digit, lit ''-'', exactly 2 digit, lit ''-'', exactly 2 digit] s = Some rest"
    unfolding date_pieces by blast
qed

lemma DATE_RE_iff: "DATE_RE s = (spec_date s \<or> (\<exists>t. s = t @ [CHR 0x0A] \<and> spec_date t))"
  unfolding DATE_RE_def anchored_iff date_rest by simp

lemma optional_eq_Some:
  "(optional p s = Some rest) = (p s = Some rest \<or> (p s = None \<and> rest = s))"
  by (auto simp: optional_def split: option.splits)

lemma at_end_cases: "at_end rest = (rest = [] \<or> rest = [CHR 0x0A])"
  by (simp add: at_end_def)

lemma newline_in_no_class [simp]:
  "\<not> digit (CHR 0x0A)" "\<not> hex (CHR 0x0A)" "\<not> lower_or_digit (CHR 0x0A)"
  "\<not> name_char (CHR 0x0A)" "\<not> prerelease_char (CHR 0x0A)"
  by (simp_all add: digit_def hex_def lower_or_digit_def name_char_def prerelease_char_def)

lemma punctuation_no_digit [simp]: "\<not> digit CHR ''.''" "\<not> digit CHR ''-''"
  by (simp_all add: digit_def)

lemma many1_run:
  "a \<noteq> [] \<Longrightarrow> list_all P a \<Longrightarrow> rest = [] \<or> \<not> P (hd rest) \<Longrightarrow> many1 P (a @ rest) = Some rest"
  unfolding many1_eq_Some by blast

lemma version_rest:
  assumes "at_end rest"
  shows "(seqs [many1 digit, lit ''.'', many1 digit, lit ''.'', many1 digit,
                optional (seqs [lit ''-'', many1 prerelease_char])] s = Some rest) =
         (\<exists>t. s = t @ rest \<and> spec_semver t)"
proof
  assume "seqs [many1 digit, lit ''.'', many1 digit, lit ''.'', many1 digit,
                optional (seqs [lit ''-'', many1 prerelease_char])] s = Some rest"
  then obtain a b c r where s: "s = a @ ''.'' @ b @ ''.'' @ c @ r"
    and parts: "a \<noteq> []" "list_all digit a" "b \<noteq> []" "list_all digit b"
      "c \<noteq> []" "list_all digit c"
    and tail: "optional (seqs [lit ''-'', many1 prerelease_char]) r = Some rest"
    by (simp add: seqs_Cons_eq_Some seqs_Nil_eq_Some lit_eq_Some many1_eq_Some
        del: seqs.simps) blast
  from tail consider
    q where "r = ''-'' @ q @ rest" "q \<noteq> []" "list_all prerelease_char q" | "r = rest"
    by (simp add: optional_eq_Some seqs_Cons_eq_Some seqs_Nil_eq_Some lit_eq_Some
        many1_eq_Some del: seqs.simps) blast
  then show "\<exists>t. s = t @ rest \<and> spec_semver t"
  proof cases
    case 1
    with parts have "spec_semver (a @ ''.'' @ b @ ''.'' @ c @ ''-'' @ q)"
      unfolding spec_semver_def by blast
    moreover from s 1 have "s = (a @ ''.'' @ b @ ''.'' @ c @ ''-'' @ q) @ rest"
      by simp
    ultimately show ?thesis by blast
  next
    case 2
    from parts have "spec_semver (a @ ''.'' @ b @ ''.'' @ c @ [])"
      unfolding spec_semver_def by blast
    moreover from s 2 have "s = (a @ ''.'' @ b @ ''.'' @ c @ []) @ rest"
      by simp
    ultimately show ?thesis by blast
  qed
next
  assume "\<exists>t. s = t @ rest \<and> spec_semver t"
  then obtain t where t: "s = t @ rest" "spec_semver t"
    by blast
  from t(2) obtain a b c p where "t = a @ ''.'' @ b @ ''.'' @ c @ p"
    and parts: "a \<noteq> []" "list_all digit a" "b \<noteq> []" "list_all digit b"
      "c \<noteq> []" "list_all digit c"
    and p: "p = [] \<or> (\<exists>q. p = ''-'' @ q \<and> q \<noteq> [] \<and> list_all prerelease_char q)"
    unfolding spec_semver_def by blast
  with t(1) have s: "s = a @ ''.'' @ b @ ''.'' @ c @ p @ rest"
    by simp
  have rest: "rest = [] \<or> \<not> digit (hd rest)" "rest = [] \<or> \<not> prerelease_char (hd rest)"
    "lit ''-'' rest = None"
    using assms by (auto simp: at_end_cases lit_def)
  have after_c: "p @ rest = [] \<or> \<not> digit (hd (p @ rest))"
    using p rest by auto
  have group: "optional (seqs [lit ''-'', many1 prerelease_char]) (p @ rest) = Some rest"
  proof (cases "p = []")
    case True
    with rest(3) show ?thesis by (simp add: optional_def)
  next
    case False
    with p obtain q where q: "p = ''-'' @ q" "q \<noteq> []" "list_all prerelease_char q"
      by blast
    have "many1 prerelease_char (q @ rest) = Some rest"
      using q rest(2) by (intro many1_run)
    with q(1) show ?thesis
      by (simp add: optional_def lit_def)
  qed
  have 1: "many1 digit (a @ ''.'' @ b @ ''.'' @ c @ p @ rest) = Some (''.'' @ b @ ''.'' @ c @ p @ rest)"
    using parts by (intro many1_run) simp_all
  have 2: "many1 digit (b @ ''.'' @ c @ p @ rest) = Some (''.'' @ c @ p @ rest)"
    using parts by (intro many1_run) simp_all
  have 3: "many1 digit (c @ p @ rest) = Some (p @ rest)"
    using parts after_c by (intro many1_run) simp_all
  show "seqs [many1 digit, lit ''.'', many1 digit, lit ''.'', many1 digit,
                optional (seqs [lit ''-'', many1 prerelease_char])] s = Some rest"
    unfolding s using 1 2 3 group by (simp add: lit_def)
qed

lemma VERSION_RE_iff:
  "VERSION_RE s = (spec_semver s \<or> (\<exists>t. s = t @ [CHR 0x0A] \<and> spec_semver t))"
  unfolding VERSION_RE_def anchored_iff
  by (simp add: version_rest at_end_def del: seqs.simps)

lemma takeWhile_run:
  "list_all P a \<Longrightarrow> rest = [] \<or> \<not> P (hd rest) \<Longrightarrow>
   takeWhile P (a @ rest) = a \<and> dropWhile P (a @ rest) = rest"
  by (cases rest) (simp_all add: list_all_iff takeWhile_append2 dropWhile_append2)

lemma name_rest:
  assumes "at_end rest"
  shows "(seqs [exactly 1 lower_or_digit, between 1 62 name_char] s = Some rest) =
         (\<exists>t. s = t @ rest \<and> spec_name t)"
proof
  assume "seqs [exactly 1 lower_or_digit, between 1 62 name_char] s = Some rest"
  then obtain a r where s: "s = a @ r" and a: "length a = 1" "list_all lower_or_digit a"
    and r: "between 1 62 name_char r = Some rest"
    by (simp add: seqs_Cons_eq_Some seqs_Nil_eq_Some exactly_eq_Some del: seqs.simps) blast
  from a obtain c where c: "a = [c]" "lower_or_digit c"
    by (cases a) auto
  define n where "n = min 62 (length (takeWhile name_char r))"
  from r have n: "1 \<le> n" "rest = drop n r"
    by (auto simp: between_def n_def Let_def split: if_splits)
  have "n \<le> length (takeWhile name_char r)"
    by (simp add: n_def)
  then have "take n r = take n (takeWhile name_char r)"
    by (metis append_eq_conv_conj length_takeWhile_le min.absorb2 takeWhile_dropWhile_id
        take_append diff_is_0_eq' take_0 append_Nil2 min.commute take_take)
  then have "list_all name_char (take n r)"
    by (metis list_all_iff in_set_takeD set_takeWhileD)
  moreover have "length (take n r) = n"
    using \<open>n \<le> length (takeWhile name_char r)\<close> length_takeWhile_le [of name_char r] by simp
  moreover have "n \<le> 62"
    by (simp add: n_def)
  ultimately have "spec_name (c # take n r)"
    using c(2) n(1) unfolding spec_name_def by auto
  moreover have "s = (c # take n r) @ rest"
    using s c(1) n(2) by simp
  ultimately show "\<exists>t. s = t @ rest \<and> spec_name t"
    by blast
next
  assume "\<exists>t. s = t @ rest \<and> spec_name t"
  then obtain c t where s: "s = c # t @ rest" and c: "lower_or_digit c"
    and t: "1 \<le> length t" "length t \<le> 62" "list_all name_char t"
    unfolding spec_name_def by auto
  have "rest = [] \<or> \<not> name_char (hd rest)"
    using assms by (auto simp: at_end_cases)
  with t(3) have "takeWhile name_char (t @ rest) = t"
    using takeWhile_run by blast
  with t(1,2) have "between 1 62 name_char (t @ rest) = Some rest"
    by (simp add: between_def Let_def min_def)
  with c show "seqs [exactly 1 lower_or_digit, between 1 62 name_char] s = Some rest"
    unfolding s by (simp add: exactly_def)
qed

lemma NAME_RE_iff: "NAME_RE s = (spec_name s \<or> (\<exists>t. s = t @ [CHR 0x0A] \<and> spec_name t))"
proof -
  have "at_end []" and "at_end [CHR 0x0A]"
    by (simp_all add: at_end_def)
  then show ?thesis
    unfolding NAME_RE_def anchored_iff by (simp only: name_rest append_Nil2) simp
qed

lemma GITHUB_REPO_RE_eq_Some:
  "(GITHUB_REPO_RE s = Some (owner, repo)) =
     (\<exists>tail. s = ''https://github.com/'' @ owner @ ''/'' @ repo @ tail
        \<and> path_segment owner \<and> path_segment repo
        \<and> (tail = [] \<or> tail = ''/'' \<or> tail = ''/'' @ [CHR 0x0A]))"
proof
  assume m: "GITHUB_REPO_RE s = Some (owner, repo)"
  then obtain a b where a: "s = ''https://github.com/'' @ a"
    and b: "seqs [many1 not_slash, lit ''/''] a = Some b"
    and c: "anchored (seqs [many1 not_slash, optional (lit ''/'')]) b"
    and groups: "owner = takeWhile not_slash a" "repo = takeWhile not_slash b"
    by (auto simp: GITHUB_REPO_RE_def lit_eq_Some simp del: seqs.simps
        split: option.splits if_splits)
  from b obtain ow where ow: "a = ow @ ''/'' @ b" "ow \<noteq> []" "list_all not_slash ow"
    by (simp add: seqs_Cons_eq_Some seqs_Nil_eq_Some lit_eq_Some many1_eq_Some
        del: seqs.simps) blast
  have "takeWhile not_slash (ow @ ''/'' @ b) = ow"
    using ow(3) takeWhile_run [of not_slash ow "''/'' @ b"] by (simp add: not_slash_def)
  with groups(1) ow(1) have owner: "owner = ow"
    by simp
  from c obtain r r2 rest where r: "b = r @ r2" "r \<noteq> []" "list_all not_slash r"
    "r2 = [] \<or> \<not> not_slash (hd r2)"
    and opt: "optional (lit ''/'') r2 = Some rest" and rest: "rest = [] \<or> rest = [CHR 0x0A]"
    unfolding anchored_iff
    by (simp add: seqs_Cons_eq_Some seqs_Nil_eq_Some many1_eq_Some del: seqs.simps) blast
  have "takeWhile not_slash (r @ r2) = r"
    using r(3,4) takeWhile_run by blast
  with groups(2) r(1) have repo: "repo = r"
    by simp
  from opt have "r2 = ''/'' @ rest \<or> r2 = rest"
    by (auto simp: optional_eq_Some lit_eq_Some)
  moreover have "r2 \<noteq> [CHR 0x0A]"
    using r(4) by (auto simp: not_slash_def)
  ultimately have "r2 = [] \<or> r2 = ''/'' \<or> r2 = ''/'' @ [CHR 0x0A]"
    using rest by auto
  moreover have "s = ''https://github.com/'' @ owner @ ''/'' @ repo @ r2"
    using a ow(1) r(1) owner repo by simp
  ultimately show "\<exists>tail. s = ''https://github.com/'' @ owner @ ''/'' @ repo @ tail
        \<and> path_segment owner \<and> path_segment repo
        \<and> (tail = [] \<or> tail = ''/'' \<or> tail = ''/'' @ [CHR 0x0A])"
    using ow(2,3) r(2,3) owner repo unfolding path_segment_def by blast
next
  assume "\<exists>tail. s = ''https://github.com/'' @ owner @ ''/'' @ repo @ tail
        \<and> path_segment owner \<and> path_segment repo
        \<and> (tail = [] \<or> tail = ''/'' \<or> tail = ''/'' @ [CHR 0x0A])"
  then obtain tail where s: "s = ''https://github.com/'' @ owner @ ''/'' @ repo @ tail"
    and ow: "owner \<noteq> []" "list_all not_slash owner"
    and r: "repo \<noteq> []" "list_all not_slash repo"
    and tail: "tail = [] \<or> tail = ''/'' \<or> tail = ''/'' @ [CHR 0x0A]"
    unfolding path_segment_def by blast
  have t1: "takeWhile not_slash (owner @ ''/'' @ repo @ tail) = owner
        \<and> dropWhile not_slash (owner @ ''/'' @ repo @ tail) = ''/'' @ repo @ tail"
    using ow(2) by (intro takeWhile_run) (simp_all add: not_slash_def)
  have t2: "takeWhile not_slash (repo @ tail) = repo
        \<and> dropWhile not_slash (repo @ tail) = tail"
    using r(2) tail by (intro takeWhile_run) (auto simp: not_slash_def)
  have "anchored (seqs [many1 not_slash, optional (lit ''/'')]) (repo @ tail)"
    using t2 r(1) tail by (auto simp: anchored_def many1_def optional_def lit_def at_end_def)
  moreover have "seqs [many1 not_slash, lit ''/''] (owner @ ''/'' @ repo @ tail)
                   = Some (repo @ tail)"
    using t1 ow(1) by (simp add: many1_def lit_def)
  ultimately show "GITHUB_REPO_RE s = Some (owner, repo)"
    unfolding s GITHUB_REPO_RE_def using t1 t2 by (simp add: lit_def del: seqs.simps)
qed

lemma split_at_slash:
  assumes "list_all not_slash a" and "list_all not_slash a'"
    and "a @ ''/'' @ b = a' @ ''/'' @ b'"
  shows "a = a' \<and> b = b'"
proof -
  have "takeWhile not_slash (a @ ''/'' @ b) = a" "takeWhile not_slash (a' @ ''/'' @ b') = a'"
    using assms(1,2) takeWhile_run [of not_slash _ "''/'' @ _"] by (simp_all add: not_slash_def)
  with assms(3) have "a = a'"
    by simp
  with assms(3) show ?thesis
    by simp
qed

lemma slashes_none: "(length (filter (\<lambda>c. c = CHR ''/'') a) = 0) = list_all not_slash a"
  by (induction a) (auto simp: not_slash_def)

lemma github_extra_segment_rejected:
  assumes "extra \<noteq> []" and "extra \<noteq> [CHR 0x0A]"
  shows "GITHUB_REPO_RE (''https://github.com/'' @ owner @ ''/'' @ repo @ ''/'' @ extra) = None"
proof (rule ccontr)
  assume "GITHUB_REPO_RE (''https://github.com/'' @ owner @ ''/'' @ repo @ ''/'' @ extra) \<noteq> None"
  then obtain ow r where
    "GITHUB_REPO_RE (''https://github.com/'' @ owner @ ''/'' @ repo @ ''/'' @ extra) = Some (ow, r)"
    by auto
  then obtain tail where eq: "owner @ ''/'' @ repo @ ''/'' @ extra = ow @ ''/'' @ r @ tail"
    and ow: "list_all not_slash ow" and r: "list_all not_slash r"
    and tail: "tail = [] \<or> tail = ''/'' \<or> tail = ''/'' @ [CHR 0x0A]"
    unfolding GITHUB_REPO_RE_eq_Some path_segment_def by auto
  define n where "n = (\<lambda>xs. length (filter (\<lambda>c. c = CHR ''/'') xs))"
  have n_app: "n (xs @ ys) = n xs + n ys" and n_slash: "n ''/'' = 1" for xs ys
    by (simp_all add: n_def)
  have left: "n (owner @ ''/'' @ repo @ ''/'' @ extra) = n owner + n repo + n extra + 2"
    by (simp only: n_app n_slash)
  have "n ow = 0" "n r = 0"
    using ow r slashes_none [of ow] slashes_none [of r] by (simp_all add: n_def)
  then have right: "n (ow @ ''/'' @ r @ tail) = 1 + n tail"
    by (simp only: n_app n_slash)
  have "n tail \<le> 1"
    using tail by (auto simp: n_def)
  with left right eq have "n owner = 0 \<and> n repo = 0 \<and> n tail = 1"
    by (simp only:) arith
  then have none: "length (filter (\<lambda>c. c = CHR ''/'') owner) = 0"
    "length (filter (\<lambda>c. c = CHR ''/'') repo) = 0"
    and one: "length (filter (\<lambda>c. c = CHR ''/'') tail) = 1"
    by (simp_all only: n_def)
  from one tail obtain rest where rest: "tail = ''/'' @ rest" "rest = [] \<or> rest = [CHR 0x0A]"
    by auto
  from none have "list_all not_slash owner" "list_all not_slash repo"
    by (simp_all only: slashes_none)
  with eq ow r rest(1) have "repo @ ''/'' @ extra = r @ ''/'' @ rest"
    using split_at_slash [of owner ow "repo @ ''/'' @ extra" "r @ tail"] by simp
  with \<open>list_all not_slash repo\<close> r have "extra = rest"
    using split_at_slash [of repo r extra rest] by simp
  with rest(2) assms show False
    by simp
qed

lemma github_owner_repo_accepted:
  assumes "path_segment owner" and "path_segment repo" and "tail = [] \<or> tail = ''/''"
  shows "GITHUB_REPO_RE (''https://github.com/'' @ owner @ ''/'' @ repo @ tail)
           = Some (owner, repo)"
  unfolding GITHUB_REPO_RE_eq_Some using assms by blast

lemma strip_git_suffix: "strip_git (repo @ ''.git'') = repo"
  by (simp add: strip_git_def suffix_def)

subsection \<open>The release loop\<close>

lemma release_version_checks_Inr:
  assumes "release_version_checks release package_name rel_idx seen = Inr seen'"
  shows "\<exists>v. py_getitem release ''version'' = Inr (JStr v) \<and> VERSION_RE v \<and> v \<notin> seen
           \<and> seen' = insert v seen"
  using assms
  by (auto simp: release_version_checks_def and_then_eq_Inr fail_if_eq_Inr or_else_eq_False
      not_r_eq_Inr py_match_eq_Inr set_contains_eq_False set_add_eq_Inr)

lemma validate_release_snd:
  "snd (validate_release release package_name rel_idx seen) =
     (case release_version_checks release package_name rel_idx seen of
        Inl a \<Rightarrow> seen | Inr seen' \<Rightarrow> seen')"
  by (simp add: validate_release_def split: sum.splits)

lemma validate_release_Inr:
  assumes "validate_release release package_name rel_idx seen = (Inr u, seen')"
  shows "release_version_checks release package_name rel_idx seen = Inr seen'"
  using assms by (auto simp: validate_release_def split: sum.splits)

lemma validate_releases_accepts:
  assumes "validate_releases rs package_name idx seen = Inr seen'"
  shows "distinct (map (\<lambda>r. py_getitem r ''version'') rs)
         \<and> (\<forall>r \<in> set rs. \<exists>v. py_getitem r ''version'' = Inr (JStr v) \<and> v \<notin> seen \<and> v \<in> seen')
         \<and> seen \<subseteq> seen'"
  using assms
proof (induction rs arbitrary: idx seen)
  case Nil
  then show ?case by simp
next
  case (Cons r rs)
  from Cons.prems obtain u mid where
    step: "validate_release r package_name idx seen = (Inr u, mid)"
    and rest: "validate_releases rs package_name (Suc idx) mid = Inr seen'"
    by (auto simp: fail_def split: if_splits prod.splits sum.splits)
  from validate_release_Inr [OF step] release_version_checks_Inr
  obtain v where v: "py_getitem r ''version'' = Inr (JStr v)" "v \<notin> seen" "mid = insert v seen"
    by blast
  from Cons.IH [OF rest] have
    ih1: "distinct (map (\<lambda>r. py_getitem r ''version'') rs)"
    and ih2: "\<forall>r \<in> set rs. \<exists>w. py_getitem r ''version'' = Inr (JStr w) \<and> w \<notin> mid \<and> w \<in> seen'"
    and ih3: "mid \<subseteq> seen'"
    by blast+
  have "py_getitem r ''version'' \<notin> (\<lambda>r. py_getitem r ''version'') ` set rs"
  proof
    assume "py_getitem r ''version'' \<in> (\<lambda>r. py_getitem r ''version'') ` set rs"
    then obtain r' where "r' \<in> set rs" "py_getitem r' ''version'' = Inr (JStr v)"
      using v(1) by auto
    with ih2 have "v \<notin> mid" by fastforce
    with v(3) show False by simp
  qed
  moreover have "\<forall>r' \<in> set (r # rs). \<exists>w. py_getitem r' ''version'' = Inr (JStr w) \<and> w \<notin> seen \<and> w \<in> seen'"
    using v ih2 ih3 by auto
  moreover have "seen \<subseteq> seen'" using v(3) ih3 by auto
  ultimately show ?case using ih1 by simp
qed

lemma validate_releases_append:
  "validate_releases (xs @ ys) package_name idx seen =
     and_then (validate_releases xs package_name idx seen)
       (\<lambda>mid. validate_releases ys package_name (idx + length xs) mid)"
  by (induction xs arbitrary: idx seen) (auto simp: fail_def split: prod.splits sum.splits)

lemma validate_release_fst:
  "fst (validate_release release package_name rel_idx seen) =
     and_then (release_version_checks release package_name rel_idx seen) (\<lambda>_.
     and_then (released_at_check release package_name rel_idx) (\<lambda>_.
     and_then (compiler_drop_checks release package_name rel_idx) (\<lambda>_.
     source_checks release package_name rel_idx)))"
  by (simp add: validate_release_def split: sum.splits)

lemma validate_releases_seen:
  assumes "validate_releases rs package_name idx seen = Inr seen'"
    and "r \<in> set rs"
  shows "\<exists>v. py_getitem r ''version'' = Inr (JStr v) \<and> VERSION_RE v \<and> v \<in> seen'"
  using assms
proof (induction rs arbitrary: idx seen)
  case Nil
  then show ?case by simp
next
  case (Cons x rs)
  from Cons.prems(1) obtain u mid where
    step: "validate_release x package_name idx seen = (Inr u, mid)"
    and rest: "validate_releases rs package_name (Suc idx) mid = Inr seen'"
    by (auto simp: fail_def split: if_splits prod.splits sum.splits)
  show ?case
  proof (cases "r = x")
    case True
    from validate_release_Inr [OF step] release_version_checks_Inr
    obtain v where "py_getitem x ''version'' = Inr (JStr v)" "VERSION_RE v" "mid = insert v seen"
      by blast
    moreover have "mid \<subseteq> seen'"
      using validate_releases_accepts [OF rest] by simp
    ultimately show ?thesis using True by auto
  next
    case False
    with Cons.prems(2) have "r \<in> set rs" by simp
    from Cons.IH [OF rest this] show ?thesis .
  qed
qed

lemma duplicate_in_loop:
  assumes pre: "validate_releases pre package_name 0 {} = Inr seen"
    and earlier: "earlier \<in> set pre" "py_getitem earlier ''version'' = Inr version"
    and later: "is_dict later" "py_getitem later ''version'' = Inr version"
      "require_keys [''version'', ''compiler-drop'', ''releasedAt'', ''source''] later
         (Release_missing_key package_name (length pre)) = Inr ()"
  shows "validate_releases (pre @ later # rest) package_name 0 {} =
           Inl (Exit (Duplicate_release_version package_name version))"
proof -
  from validate_releases_seen [OF pre earlier(1)] earlier(2)
  obtain v where v: "version = JStr v" "VERSION_RE v" "v \<in> seen"
    by auto
  have "release_version_checks later package_name (length pre) seen =
          fail (Duplicate_release_version package_name version)"
    using later(2,3) v by (simp add: release_version_checks_def set_contains_def py_match_def)
  then have "validate_release later package_name (length pre) seen =
               (fail (Duplicate_release_version package_name version), seen)"
    by (simp add: validate_release_def fail_def)
  with later(1) pre show ?thesis
    by (simp add: validate_releases_append fail_def)
qed

lemma offline_checks_Inr:
  assumes "offline_checks data package_name = Inr target"
  shows "\<exists>items seen. py_get data ''releases'' = Inr (JArr items)
           \<and> validate_releases items package_name 0 {} = Inr seen"
proof -
  from assms obtain releases items seen where
    r: "py_get data ''releases'' = Inr releases" "is_list releases"
      "py_iter releases = Inr items" "validate_releases items package_name 0 {} = Inr seen"
    by (auto simp: offline_checks_def releases_checks_def passed_rules)
  from r(2,3) have "releases = JArr items"
    by (cases releases) (simp_all add: is_list_def py_iter_def)
  with r show ?thesis by blast
qed

subsection \<open>No check raises on a value it has not tested\<close>

lemma release_version_checks_clean:
  "\<not> crashed (release_version_checks (JObj d) package_name rel_idx seen)"
  by (auto simp: release_version_checks_def crashed_rules passed_rules require_keys_Inr
      split: option.splits)

lemma released_at_check_clean: "\<not> crashed (released_at_check (JObj d) package_name rel_idx)"
  by (auto simp: released_at_check_def crashed_rules passed_rules)

lemma compiler_drop_checks_clean:
  "\<not> crashed (compiler_drop_checks (JObj d) package_name rel_idx)"
  by (auto simp: compiler_drop_checks_def crashed_rules passed_rules)

lemma source_checks_clean: "\<not> crashed (source_checks (JObj d) package_name rel_idx)"
  by (auto simp: source_checks_def crashed_rules passed_rules)

lemma validate_release_clean:
  "\<not> crashed (fst (validate_release (JObj d) package_name rel_idx seen))"
  using release_version_checks_clean [of d package_name rel_idx seen]
  by (auto simp: validate_release_def crashed_and_then released_at_check_clean
      compiler_drop_checks_clean source_checks_clean split: sum.splits)

lemma validate_releases_clean: "\<not> crashed (validate_releases rs package_name idx seen)"
proof (induction rs arbitrary: idx seen)
  case Nil
  then show ?case by simp
next
  case (Cons r rs)
  show ?case
  proof (cases r)
    case (JObj d)
    with Cons.IH validate_release_clean [of d package_name idx seen] show ?thesis
      by (auto split: prod.splits sum.splits)
  qed (simp_all add: is_dict_def)
qed

lemma releases_checks_clean: "is_dict data \<Longrightarrow> \<not> crashed (releases_checks data package_name)"
  by (auto simp: releases_checks_def crashed_rules passed_rules validate_releases_clean)

lemma descriptor_checks_clean: "\<not> crashed (descriptor_checks data package_name)"
proof (cases data)
  case (JObj d)
  then show ?thesis
    by (auto simp: descriptor_checks_def crashed_rules passed_rules require_keys_Inr
        split: option.splits)
qed (simp_all add: descriptor_checks_def is_dict_def)

lemma descriptor_checks_dict: "descriptor_checks data package_name = Inr x \<Longrightarrow> is_dict data"
  by (auto simp: descriptor_checks_def passed_rules split: if_splits)

lemma offline_checks_clean: "\<not> crashed (offline_checks data package_name)"
  by (auto simp: offline_checks_def crashed_and_then descriptor_checks_clean
      releases_checks_clean dest: descriptor_checks_dict)

subsection \<open>The loop over the files\<close>

lemma validate_package_file_cong:
  "fs package_path = fs' package_path \<Longrightarrow>
   validate_package_file fs api package_path offline token =
   validate_package_file fs' api package_path offline token"
  by (simp add: validate_package_file_def)

lemma validate_package_file_offline:
  "validate_package_file fs api package_path True token =
   validate_package_file fs api' package_path True token'"
  by (simp add: validate_package_file_def Let_def case_prod_beta split: file_content.splits)

lemma validate_files_cong:
  "(\<And>p. p \<in> set paths \<Longrightarrow> fs p = fs' p) \<Longrightarrow>
   validate_files fs api offline token paths seen =
   validate_files fs' api offline token paths seen"
proof (induction paths arbitrary: seen)
  case Nil
  then show ?case by simp
next
  case (Cons p paths)
  have "validate_package_file fs api p offline token =
        validate_package_file fs' api p offline token"
    by (rule validate_package_file_cong) (simp add: Cons.prems)
  moreover have "validate_files fs api offline token paths s =
                 validate_files fs' api offline token paths s" for s
    by (rule Cons.IH) (simp add: Cons.prems)
  ultimately show ?case by (simp add: Let_def)
qed

lemma validate_files_offline:
  "validate_files fs api True token paths seen = validate_files fs api' True token' paths seen"
proof (induction paths arbitrary: seen)
  case Nil
  then show ?case by simp
next
  case (Cons p paths)
  then show ?case
    using validate_package_file_offline [of fs api p token api' token']
    by (simp add: Let_def)
qed

lemma validate_files_append:
  "validate_files fs api offline token (xs @ ys) seen =
     and_then (validate_files fs api offline token xs seen)
       (\<lambda>_. validate_files fs api offline token ys (seen \<union> stem ` set xs))"
proof (induction xs arbitrary: seen)
  case Nil
  then show ?case by simp
next
  case (Cons p xs)
  show ?case
  proof (cases "validate_package_file fs api p offline token")
    case (Inl a)
    then show ?thesis by (simp add: Let_def)
  next
    case (Inr u)
    with Cons.IH [of "insert (stem p) seen"] show ?thesis
      by (simp add: Let_def)
  qed
qed

lemma validate_files_accepts:
  assumes "validate_files fs api offline token paths seen = Inr u"
  shows "distinct (map stem paths) \<and> stem ` set paths \<inter> seen = {}
         \<and> (\<forall>p \<in> set paths. NAME_RE (stem p))"
  using assms
proof (induction paths arbitrary: seen)
  case Nil
  then show ?case by simp
next
  case (Cons p paths)
  from Cons.prems have here: "NAME_RE (stem p)" "stem p \<notin> seen"
    and rest: "validate_files fs api offline token paths (insert (stem p) seen) = Inr u"
    by (auto simp: Let_def and_then_eq_Inr split: if_splits)
  from Cons.IH [OF rest] here show ?case by auto
qed

lemma sort_same_files:
  fixes paths :: "path list"
  assumes "distinct paths" and "distinct paths'" and "set paths = set paths'"
  shows "sort paths = sort paths'"
proof -
  have "mset paths = mset paths'"
    using assms by (simp add: set_eq_iff_mset_eq_distinct)
  then have "mset (sort paths') = mset paths" by simp
  then show ?thesis
    by (rule properties_for_sort) simp
qed

lemma main_Some:
  "main fs api offline token (Some paths) =
     (if paths = [] then fail No_package_files
      else and_then (validate_files fs api offline token (sort paths) {})
             (\<lambda>_. Inr (length paths, if offline then ''offline'' else ''online'')))"
  by (cases paths) (simp_all add: main_def Let_def)

subsection \<open>The round-trip descriptor\<close>

text \<open>
  C1, as the spec spells the keys: the file \<open>abcd.json\<close> with \<open>schemaVersion\<close>,
  \<open>compilerDrop\<close> and \<open>testedOn\<close> does not pass. The script looks for \<open>schema-version\<close>
  and stops at the missing key.
\<close>

theorem c1_spec_spelling_counterexample:
  "validate_package_file (every_file spec_spelled_descriptor) no_network abcd_json True None
     = Inl (Exit (Missing_key ''abcd'' ''schema-version''))"
  by code_simp

text \<open>
  C1, amended: the file \<open>abcd.json\<close> holding \<open>name = "abcd"\<close>, \<open>schema-version = 1\<close>,
  \<open>repository = "https://github.com/o/r"\<close>, \<open>createdAt = "2024-01-01"\<close> and one release
  with \<open>version = "1.0.0"\<close>, \<open>releasedAt = "2024-01-01"\<close>,
  \<open>compiler-drop = {min: 1, tested-on: 1}\<close> and \<open>source = {commit: 40 times a, sha256: 64
  times b}\<close> passes offline validation: \<open>validate_package_file\<close> returns without a failure.
\<close>

theorem c1_minimal_descriptor_passes:
  "validate_package_file (every_file minimal_descriptor) no_network abcd_json True None
     = Inr ()"
  by code_simp

subsection \<open>The format validators\<close>

text \<open>
  C2 says that the date validator accepts exactly the strings of the shape
  \<open>\d{4}-\d{2}-\d{2}\<close> and rejects one with a trailing newline, and likewise for semver.
  The script's validators are \<open>DATE_RE.match\<close> and \<open>VERSION_RE.match\<close>, and the \<open>$\<close> that
  ends both patterns also holds before a final newline: \<open>"2024-01-01\n"\<close> is accepted as
  a date and \<open>"1.0.0\n"\<close> as a version, and a descriptor whose release carries both
  passes offline validation. The messages of the script ask for \<open>YYYY-MM-DD\<close> and for
  semver. This is the only difference: by \<open>DATE_RE_iff\<close> and \<open>VERSION_RE_iff\<close> each
  validator accepts the strings of the spec's pattern and those strings followed by one
  newline, and nothing else; \<open>2024-13-99\<close> is a string of the date pattern.
\<close>

theorem c2_trailing_newline_accepted:
  "DATE_RE (''2024-01-01'' @ [CHR 0x0A]) \<and> VERSION_RE (''1.0.0'' @ [CHR 0x0A])
   \<and> validate_package_file
        (every_file (descriptor_with (JStr ''abcd'') (JStr ''https://github.com/o/r'')
           [release_with (JStr (''1.0.0'' @ [CHR 0x0A])) (JStr (''2024-01-01'' @ [CHR 0x0A]))
              (drop_range 1 1)]))
        no_network abcd_json True None = Inr ()"
  by code_simp

subsection \<open>Release versions\<close>

text \<open>
  C3, as stated: a release whose version repeats an earlier one always fails with
  \<open>DuplicateVersion\<close>. The script reports the first check that fails, and that can be
  another one. In the first package the second release repeats \<open>1.0.0\<close> and has no
  other key: the failure is the missing key. In the second package the first release
  has a malformed \<open>releasedAt\<close>: the run stops there, before it reaches the repeat.
\<close>

theorem c3_earlier_check_counterexample:
  "validate_package_file
     (every_file (descriptor_with (JStr ''abcd'') (JStr ''https://github.com/o/r'')
        [minimal_release, JObj [(''version'', JStr ''1.0.0'')]]))
     no_network abcd_json True None
     = Inl (Exit (Release_missing_key ''abcd'' 1 ''compiler-drop''))
   \<and> validate_package_file
     (every_file (descriptor_with (JStr ''abcd'') (JStr ''https://github.com/o/r'')
        [release_with (JStr ''1.0.0'') (JStr ''yesterday'') (drop_range 1 1), minimal_release]))
     no_network abcd_json True None
     = Inl (Exit (ReleasedAt_not_date ''abcd'' 0))"
  by code_simp

text \<open>
  C3, amended. (1) A package that validation accepts has pairwise distinct release
  version strings. (2) When the top-level checks of the descriptor pass, every release
  before a given one passes, and that release is an object with all four required keys
  whose version equals the version of an earlier release, validation fails with
  \<open>DuplicateVersion\<close> for that version, wherever the two stand in the list and in either
  mode. (3) When the checks up to the duplicate test pass for a release, its version is
  a string that was not in \<open>seen_versions\<close>, and \<open>validate_release\<close> leaves the set with
  that version added, whatever the later checks on the release decide.
\<close>

theorem c3_duplicate_version:
  "(fs package_path = Parsed data
      \<and> validate_package_file fs api package_path offline token = Inr ()
    \<longrightarrow> (\<exists>items. py_get data ''releases'' = Inr (JArr items)
           \<and> distinct (map (\<lambda>release. py_getitem release ''version'') items)))
   \<and> (fs package_path = Parsed data
      \<and> descriptor_checks data (stem package_path) = Inr target
      \<and> py_get data ''releases'' = Inr (JArr (pre @ later # rest))
      \<and> validate_releases pre (stem package_path) 0 {} = Inr seen
      \<and> earlier \<in> set pre
      \<and> py_getitem earlier ''version'' = Inr version
      \<and> py_getitem later ''version'' = Inr version
      \<and> is_dict later
      \<and> require_keys [''version'', ''compiler-drop'', ''releasedAt'', ''source''] later
            (Release_missing_key (stem package_path) (length pre)) = Inr ()
    \<longrightarrow> validate_package_file fs api package_path offline token
          = Inl (Exit (Duplicate_release_version (stem package_path) version)))
   \<and> (release_version_checks release package_name rel_idx seen_versions = Inr seen'
    \<longrightarrow> (\<exists>v. py_getitem release ''version'' = Inr (JStr v) \<and> v \<notin> seen_versions
           \<and> seen' = insert v seen_versions
           \<and> snd (validate_release release package_name rel_idx seen_versions)
               = insert v seen_versions))"
proof (intro conjI impI)
  assume a: "fs package_path = Parsed data
      \<and> validate_package_file fs api package_path offline token = Inr ()"
  then obtain target where "offline_checks data (stem package_path) = Inr target"
    by (auto simp: validate_package_file_Parsed and_then_eq_Inr)
  from offline_checks_Inr [OF this] obtain items seen where
    "py_get data ''releases'' = Inr (JArr items)"
    "validate_releases items (stem package_path) 0 {} = Inr seen"
    by blast
  with validate_releases_accepts [of items "stem package_path" 0 "{}" seen]
  show "\<exists>items. py_get data ''releases'' = Inr (JArr items)
           \<and> distinct (map (\<lambda>release. py_getitem release ''version'') items)"
    by blast
next
  assume b: "fs package_path = Parsed data
      \<and> descriptor_checks data (stem package_path) = Inr target
      \<and> py_get data ''releases'' = Inr (JArr (pre @ later # rest))
      \<and> validate_releases pre (stem package_path) 0 {} = Inr seen
      \<and> earlier \<in> set pre
      \<and> py_getitem earlier ''version'' = Inr version
      \<and> py_getitem later ''version'' = Inr version
      \<and> is_dict later
      \<and> require_keys [''version'', ''compiler-drop'', ''releasedAt'', ''source''] later
            (Release_missing_key (stem package_path) (length pre)) = Inr ()"
  then have loop: "validate_releases (pre @ later # rest) (stem package_path) 0 {} =
           Inl (Exit (Duplicate_release_version (stem package_path) version))"
    using duplicate_in_loop [of pre "stem package_path" seen earlier version later rest]
    by blast
  have "releases_checks data (stem package_path) =
          Inl (Exit (Duplicate_release_version (stem package_path) version))"
    using b loop by (simp add: releases_checks_def py_len_def py_iter_def)
  with b show "validate_package_file fs api package_path offline token
          = Inl (Exit (Duplicate_release_version (stem package_path) version))"
    by (simp add: validate_package_file_Parsed offline_checks_def)
next
  assume c: "release_version_checks release package_name rel_idx seen_versions = Inr seen'"
  from release_version_checks_Inr [OF c] obtain v where
    "py_getitem release ''version'' = Inr (JStr v)" "v \<notin> seen_versions"
    "seen' = insert v seen_versions"
    by blast
  with c show "\<exists>v. py_getitem release ''version'' = Inr (JStr v) \<and> v \<notin> seen_versions
           \<and> seen' = insert v seen_versions
           \<and> snd (validate_release release package_name rel_idx seen_versions)
               = insert v seen_versions"
    by (simp add: validate_release_snd)
qed

text \<open>
  C3 at a package with the releases \<open>1.0.0\<close> and \<open>1.0.0\<close>, at the accepted minimal
  package, and at its release.
\<close>

theorem c3_duplicate_version_witness:
  "(\<exists>items. py_get minimal_descriptor ''releases'' = Inr (JArr items)
       \<and> distinct (map (\<lambda>release. py_getitem release ''version'') items))
   \<and> validate_package_file (every_file repeated_version_descriptor) no_network abcd_json
        True None
       = Inl (Exit (Duplicate_release_version ''abcd'' (JStr ''1.0.0'')))
   \<and> snd (validate_release minimal_release ''abcd'' 0 {}) = {''1.0.0''}"
proof -
  note c3 = c3_duplicate_version
    [where package_path = abcd_json and api = no_network and offline = True and token = None
       and pre = "[minimal_release]" and later = second_release and rest = "[]"
       and earlier = minimal_release and version = "JStr ''1.0.0''" and target = "(''o'', ''r'')"
       and seen = "{''1.0.0''}"
       and release = minimal_release and package_name = "''abcd''" and rel_idx = 0
       and seen_versions = "{}" and seen' = "{''1.0.0''}"]
  have name: "stem abcd_json = ''abcd''"
    by code_simp
  have a: "every_file minimal_descriptor abcd_json = Parsed minimal_descriptor
      \<and> validate_package_file (every_file minimal_descriptor) no_network abcd_json True None
          = Inr ()"
    by code_simp
  have b: "every_file repeated_version_descriptor abcd_json = Parsed repeated_version_descriptor
      \<and> descriptor_checks repeated_version_descriptor (stem abcd_json) = Inr (''o'', ''r'')
      \<and> py_get repeated_version_descriptor ''releases''
          = Inr (JArr ([minimal_release] @ second_release # []))
      \<and> validate_releases [minimal_release] (stem abcd_json) 0 {} = Inr {''1.0.0''}
      \<and> minimal_release \<in> set [minimal_release]
      \<and> py_getitem minimal_release ''version'' = Inr (JStr ''1.0.0'')
      \<and> py_getitem second_release ''version'' = Inr (JStr ''1.0.0'')
      \<and> is_dict second_release
      \<and> require_keys [''version'', ''compiler-drop'', ''releasedAt'', ''source'']
            second_release (Release_missing_key (stem abcd_json) (length [minimal_release]))
          = Inr ()"
    by code_simp
  have c: "release_version_checks minimal_release ''abcd'' 0 {} = Inr {''1.0.0''}"
    by code_simp
  from c3 [where fs = "every_file minimal_descriptor" and data = minimal_descriptor] a
  have "\<exists>items. py_get minimal_descriptor ''releases'' = Inr (JArr items)
       \<and> distinct (map (\<lambda>release. py_getitem release ''version'') items)"
    by blast
  moreover
  from c3 [where fs = "every_file repeated_version_descriptor"
             and data = repeated_version_descriptor] b
  have "validate_package_file (every_file repeated_version_descriptor) no_network abcd_json
          True None
        = Inl (Exit (Duplicate_release_version (stem abcd_json) (JStr ''1.0.0'')))"
    by blast
  moreover
  from c3 [where fs = "every_file minimal_descriptor" and data = minimal_descriptor] c
  have "snd (validate_release minimal_release ''abcd'' 0 {}) = {''1.0.0''}"
    by auto
  ultimately show ?thesis
    by (simp add: name)
qed

subsection \<open>The compiler-drop range\<close>

text \<open>
  C4, as stated: with integers \<open>min \<ge> 1\<close> and \<open>tested-on \<ge> 1\<close> and \<open>tested-on < min\<close>,
  release validation fails with \<open>InvalidRange\<close>. The checks on the version and on
  \<open>releasedAt\<close> come first: this release has \<open>min = 2\<close>, \<open>tested-on = 1\<close> and the number
  \<open>7\<close> as its version, and fails on the version.
\<close>

theorem c4_earlier_check_counterexample:
  "fst (validate_release (release_with (JInt 7) (JStr ''2024-01-01'') (drop_range 2 1))
          ''abcd'' 0 {})
     = Inl (Exit (Version_not_semver ''abcd'' 0))"
  by code_simp

text \<open>
  C4, amended. For a release whose \<open>compiler-drop\<close> is an object with integers
  \<open>min \<ge> 1\<close> and \<open>tested-on \<ge> 1\<close>: the compiler-drop checks (lines 67 to 80) fail with
  \<open>InvalidRange\<close> when \<open>tested-on < min\<close> and pass otherwise, so they pass when
  \<open>tested-on = min\<close>. When \<open>tested-on < min\<close>, \<open>validate_release\<close> never accepts the
  release, and it fails with \<open>InvalidRange\<close> when the checks before the compiler-drop
  ones (required keys, version, duplicate, \<open>releasedAt\<close>) pass.
\<close>

theorem c4_tested_on_range:
  assumes "py_get release ''compiler-drop'' = Inr (JObj compiler_drop)"
    and "map_of compiler_drop ''min'' = Some (JInt min_drop)"
    and "map_of compiler_drop ''tested-on'' = Some (JInt tested_on)"
    and "1 \<le> min_drop" and "1 \<le> tested_on"
  shows "compiler_drop_checks release package_name rel_idx
           = (if tested_on < min_drop
              then Inl (Exit (Tested_on_below_min package_name rel_idx)) else Inr ())
         \<and> (tested_on < min_drop
            \<longrightarrow> fst (validate_release release package_name rel_idx seen_versions) \<noteq> Inr ())
         \<and> (tested_on < min_drop
              \<and> release_version_checks release package_name rel_idx seen_versions = Inr seen'
              \<and> released_at_check release package_name rel_idx = Inr ()
            \<longrightarrow> fst (validate_release release package_name rel_idx seen_versions)
                  = Inl (Exit (Tested_on_below_min package_name rel_idx)))"
proof -
  have block: "compiler_drop_checks release package_name rel_idx
           = (if tested_on < min_drop
              then Inl (Exit (Tested_on_below_min package_name rel_idx)) else Inr ())"
    using assms by (simp add: compiler_drop_checks_def fail_def)
  then show ?thesis
    by (auto simp: validate_release_fst and_then_eq_Inr)
qed

text \<open>C4 at \<open>min = 2\<close> with \<open>tested-on = 1\<close>, and at \<open>min = tested-on = 2\<close>.\<close>

theorem c4_tested_on_range_witness:
  "compiler_drop_checks (release_with (JStr ''1.0.0'') (JStr ''2024-01-01'') (drop_range 2 1))
     ''abcd'' 0
     = Inl (Exit (Tested_on_below_min ''abcd'' 0))
   \<and> fst (validate_release
            (release_with (JStr ''1.0.0'') (JStr ''2024-01-01'') (drop_range 2 1)) ''abcd'' 0 {})
     = Inl (Exit (Tested_on_below_min ''abcd'' 0))
   \<and> compiler_drop_checks (release_with (JStr ''1.0.0'') (JStr ''2024-01-01'') (drop_range 2 2))
       ''abcd'' 0
     = Inr ()"
proof -
  have below: "py_get (release_with (JStr ''1.0.0'') (JStr ''2024-01-01'') (drop_range 2 1))
                 ''compiler-drop''
               = Inr (JObj [(''min'', JInt 2), (''tested-on'', JInt 1)])"
    by code_simp
  have equal: "py_get (release_with (JStr ''1.0.0'') (JStr ''2024-01-01'') (drop_range 2 2))
                 ''compiler-drop''
               = Inr (JObj [(''min'', JInt 2), (''tested-on'', JInt 2)])"
    by code_simp
  have earlier: "release_version_checks
                   (release_with (JStr ''1.0.0'') (JStr ''2024-01-01'') (drop_range 2 1))
                   ''abcd'' 0 {} = Inr {''1.0.0''}
               \<and> released_at_check
                   (release_with (JStr ''1.0.0'') (JStr ''2024-01-01'') (drop_range 2 1))
                   ''abcd'' 0 = Inr ()"
    by code_simp
  show ?thesis
    using c4_tested_on_range [OF below, of 2 1 "''abcd''" 0 "{}" "{''1.0.0''}"]
      c4_tested_on_range [OF equal, of 2 2 "''abcd''" 0 "{}" "{}"] earlier
    by simp
qed

subsection \<open>The repository URL\<close>

text \<open>
  C5 says that a repository URL with a path segment after owner and repo fails the
  format check. \<open>GITHUB_REPO_RE\<close> ends in \<open>/?$\<close>, and \<open>$\<close> also holds before a final
  newline: in \<open>"https://github.com/owner/repo/\n"\<close> the segment after \<open>repo/\<close> is a
  newline, the pattern matches with the groups \<open>owner\<close> and \<open>repo\<close>, and a descriptor with
  this repository passes offline validation. The message of the script asks for a URL
  like \<open>https://github.com/owner/repo\<close>. Every other segment after owner and repo is
  rejected (\<open>github_extra_segment_rejected\<close>); owner and repo, with or without a slash
  after them, are accepted and are the two groups (\<open>github_owner_repo_accepted\<close>); and a
  \<open>.git\<close> that ends the repo is stripped (\<open>strip_git_suffix\<close>).
\<close>

theorem c5_newline_segment_accepted:
  "GITHUB_REPO_RE (''https://github.com/owner/repo/'' @ [CHR 0x0A]) = Some (''owner'', ''repo'')
   \<and> validate_package_file
        (every_file (descriptor_with (JStr ''abcd'')
           (JStr (''https://github.com/owner/repo/'' @ [CHR 0x0A])) [minimal_release]))
        no_network abcd_json True None = Inr ()"
  by code_simp

subsection \<open>File names\<close>

text \<open>
  C6, as stated: a file whose stem does not match the name format makes the run fail
  with \<open>InvalidFilename\<close>. Files are taken in sorted order and the run stops at the
  first failure: here \<open>a1.json\<close> comes before \<open>b.json\<close> and is not JSON, so the run fails
  on \<open>a1.json\<close> and never looks at \<open>b.json\<close>, whose stem is one character long.
\<close>

theorem c6_earlier_file_counterexample:
  "main unparsable no_network True None
     (Some [[''packages'', ''b.json''], [''packages'', ''a1.json'']])
     = Inl (Exit (Invalid_JSON ''a1''))"
  by code_simp

text \<open>
  C6, amended. When every file before a given one in sorted order passes, and
  \<open>NAME_RE.match\<close> rejects the stem of that file, the run fails with \<open>InvalidFilename\<close>
  for that path, in either mode, whatever the file holds: replacing its content, also
  by something unreadable, does not change the outcome. By \<open>NAME_RE_iff\<close> the stems that
  \<open>NAME_RE.match\<close> rejects are those that are neither of the name format nor of the name
  format followed by one newline.
\<close>

theorem c6_invalid_filename_before_reading:
  assumes "sort paths = pre @ package_path # rest"
    and "validate_files fs api offline token pre {} = Inr ()"
    and "\<not> NAME_RE (stem package_path)"
  shows "main (fs(package_path := content)) api offline token (Some paths)
           = Inl (Exit (Invalid_package_filename package_path))"
proof -
  from validate_files_accepts [OF assms(2)] have "\<forall>q \<in> set pre. NAME_RE (stem q)"
    by simp
  with assms(3) have "package_path \<notin> set pre"
    by auto
  then have "validate_files (fs(package_path := content)) api offline token pre {} =
             validate_files fs api offline token pre {}"
    by (intro validate_files_cong) auto
  with assms(2) have pre: "validate_files (fs(package_path := content)) api offline token pre {}
                             = Inr ()"
    by simp
  from assms(1) have "paths \<noteq> []"
    by auto
  then show ?thesis
    using assms(1,3) pre
    by (simp add: main_Some validate_files_append Let_def fail_def)
qed

text \<open>
  C6 at \<open>abcd.json\<close> followed by an unreadable \<open>b.json\<close>. A stem that starts with an
  upper-case letter is rejected as well.
\<close>

theorem c6_invalid_filename_before_reading_witness:
  "sort [[''packages'', ''b.json''], [''packages'', ''abcd.json'']]
     = [[''packages'', ''abcd.json'']] @ [''packages'', ''b.json''] # []
   \<and> validate_files (every_file minimal_descriptor) no_network True None
       [[''packages'', ''abcd.json'']] {} = Inr ()
   \<and> \<not> NAME_RE (stem [''packages'', ''b.json''])
   \<and> \<not> NAME_RE (stem [''packages'', ''Abcd.json''])
   \<and> main ((every_file minimal_descriptor)([''packages'', ''b.json''] := Unreadable))
       no_network True None (Some [[''packages'', ''b.json''], [''packages'', ''abcd.json'']])
     = Inl (Exit (Invalid_package_filename [''packages'', ''b.json'']))"
proof -
  have order: "sort [[''packages'', ''b.json''], [''packages'', ''abcd.json'']]
     = [[''packages'', ''abcd.json'']] @ [''packages'', ''b.json''] # []"
    by code_simp
  have before: "validate_files (every_file minimal_descriptor) no_network True None
       [[''packages'', ''abcd.json'']] {} = Inr ()"
    by code_simp
  have name: "\<not> NAME_RE (stem [''packages'', ''b.json''])"
    "\<not> NAME_RE (stem [''packages'', ''Abcd.json''])"
    by code_simp+
  from c6_invalid_filename_before_reading [OF order before name(1), of Unreadable]
  show ?thesis
    using order before name by simp
qed

text \<open>
  C7. (1) A run that is accepted has pairwise distinct stems over all its files. (2)
  When two files have the same stem and the run reaches the second of them in sorted
  order, that is, every file before it passes, the run fails with \<open>DuplicatePackage\<close>
  for that stem. The statement holds for every content of the files, so also when the
  \<open>name\<close> fields of the two differ, and for every directory the files are in.
\<close>

theorem c7_duplicate_package:
  "(main fs api offline token (Some paths) = Inr summary \<longrightarrow> distinct (map stem paths))
   \<and> (sort paths = pre @ second # rest
      \<and> validate_files fs api offline token pre {} = Inr ()
      \<and> first \<in> set pre \<and> stem first = stem second
    \<longrightarrow> main fs api offline token (Some paths)
          = Inl (Exit (Duplicate_package (stem second))))"
proof (intro conjI impI)
  assume "main fs api offline token (Some paths) = Inr summary"
  then have "validate_files fs api offline token (sort paths) {} = Inr ()"
    by (auto simp: main_Some and_then_eq_Inr split: if_splits)
  from validate_files_accepts [OF this] have "distinct (map stem (sort paths))"
    by simp
  moreover have "mset (map stem (sort paths)) = mset (map stem paths)"
    by simp
  ultimately show "distinct (map stem paths)"
    using mset_eq_imp_distinct_iff by blast
next
  assume a: "sort paths = pre @ second # rest
      \<and> validate_files fs api offline token pre {} = Inr ()
      \<and> first \<in> set pre \<and> stem first = stem second"
  then have ok: "validate_files fs api offline token pre {} = Inr ()"
    by simp
  from validate_files_accepts [OF ok] a have "NAME_RE (stem second)"
    by metis
  moreover from a have "stem second \<in> stem ` set pre"
    by (metis imageI)
  moreover from a have "paths \<noteq> []"
    by auto
  ultimately show "main fs api offline token (Some paths)
          = Inl (Exit (Duplicate_package (stem second)))"
    using a by (simp add: main_Some validate_files_append Let_def fail_def)
qed

text \<open>
  C7 at \<open>a/abcd.json\<close> and \<open>b/abcd.json\<close>, where the second holds the name \<open>other\<close>,
  and at the accepted run over \<open>abcd.json\<close> alone.
\<close>

theorem c7_duplicate_package_witness:
  "distinct (map stem [abcd_json])
   \<and> main two_copies no_network True None
       (Some [[''packages'', ''b'', ''abcd.json''], [''packages'', ''a'', ''abcd.json'']])
     = Inl (Exit (Duplicate_package ''abcd''))"
proof -
  have accepted: "main (every_file minimal_descriptor) no_network True None (Some [abcd_json])
                    = Inr (1, ''offline'')"
    by code_simp
  have reached: "sort [[''packages'', ''b'', ''abcd.json''], [''packages'', ''a'', ''abcd.json'']]
        = [[''packages'', ''a'', ''abcd.json'']] @ [''packages'', ''b'', ''abcd.json''] # []
      \<and> validate_files two_copies no_network True None [[''packages'', ''a'', ''abcd.json'']] {}
          = Inr ()
      \<and> [''packages'', ''a'', ''abcd.json''] \<in> set [[''packages'', ''a'', ''abcd.json'']]
      \<and> stem [''packages'', ''a'', ''abcd.json''] = stem [''packages'', ''b'', ''abcd.json'']"
    by code_simp
  have name: "stem [''packages'', ''b'', ''abcd.json''] = ''abcd''"
    by code_simp
  from c7_duplicate_package
    [where fs = "every_file minimal_descriptor" and api = no_network and offline = True
       and token = None and paths = "[abcd_json]" and summary = "(1, ''offline'')"]
    accepted
  have "distinct (map stem [abcd_json])"
    by blast
  moreover
  from c7_duplicate_package
    [where fs = two_copies and api = no_network and offline = True and token = None
       and paths = "[[''packages'', ''b'', ''abcd.json''], [''packages'', ''a'', ''abcd.json'']]"
       and pre = "[[''packages'', ''a'', ''abcd.json'']]"
       and second = "[''packages'', ''b'', ''abcd.json'']" and rest = "[]"
       and first = "[''packages'', ''a'', ''abcd.json'']"]
    reached
  have "main two_copies no_network True None
       (Some [[''packages'', ''b'', ''abcd.json''], [''packages'', ''a'', ''abcd.json'']])
     = Inl (Exit (Duplicate_package (stem [''packages'', ''b'', ''abcd.json''])))"
    by blast
  ultimately show ?thesis
    by (simp add: name)
qed

subsection \<open>The licence check\<close>

text \<open>
  C8, as stated: every identifier other than \<open>MIT\<close> fails with \<open>LicenseRejected\<close> naming
  the detected value. The message interpolates \<open>spdx_id or 'unknown'\<close>, so for the empty
  identifier it names \<open>unknown\<close>, not the empty string.
\<close>

theorem c8_empty_identifier_counterexample:
  "validate_package_file (every_file minimal_descriptor) (license_api (JStr '''')) abcd_json
     False None
     = Inl (Exit (License_not_MIT ''abcd'' (JStr ''unknown'')))"
  by code_simp

text \<open>
  C8, amended. In online mode, when the offline checks of a package pass and the
  lookup returns a JSON object: if its \<open>license\<close> is an object whose \<open>spdx_id\<close> is the
  string \<open>MIT\<close>, validation passes; if the \<open>spdx_id\<close> is any other non-empty string,
  validation fails with \<open>LicenseRejected\<close> naming that string; if the \<open>license\<close> field is
  absent or null, or the \<open>spdx_id\<close> is the empty string, it fails with
  \<open>LicenseRejected\<close> naming \<open>unknown\<close>.
\<close>

theorem c8_license_check:
  assumes "fs package_path = Parsed data"
    and "offline_checks data (stem package_path) = Inr (owner, repo)"
    and "http_json api (''https://api.github.com/repos/'' @ owner @ ''/'' @ repo) token
           = Response (JObj repo_meta)"
  shows "(map_of repo_meta ''license'' = Some (JObj license)
            \<and> map_of license ''spdx_id'' = Some (JStr ''MIT'')
          \<longrightarrow> validate_package_file fs api package_path False token = Inr ())
       \<and> (map_of repo_meta ''license'' = Some (JObj license)
            \<and> map_of license ''spdx_id'' = Some (JStr spdx_id)
            \<and> spdx_id \<noteq> ''MIT'' \<and> spdx_id \<noteq> []
          \<longrightarrow> validate_package_file fs api package_path False token
                = Inl (Exit (License_not_MIT (stem package_path) (JStr spdx_id))))
       \<and> (map_of repo_meta ''license'' = None \<or> map_of repo_meta ''license'' = Some JNull
            \<or> (map_of repo_meta ''license'' = Some (JObj license)
                \<and> map_of license ''spdx_id'' = Some (JStr []))
          \<longrightarrow> validate_package_file fs api package_path False token
                = Inl (Exit (License_not_MIT (stem package_path) (JStr ''unknown''))))"
proof -
  have run: "validate_package_file fs api package_path False token =
          and_then (py_get (py_or (case map_of repo_meta ''license'' of None \<Rightarrow> JNull
                                   | Some x \<Rightarrow> x) (JObj [])) ''spdx_id'') (\<lambda>spdx_id.
          fail_if (Inr (spdx_id \<noteq> JStr ''MIT''))
            (License_not_MIT (stem package_path) (py_or spdx_id (JStr ''unknown''))))"
    using assms by (simp add: validate_package_file_Parsed online_checks_def)
  have dict: "map_of license ''spdx_id'' = Some v \<Longrightarrow> truthy (JObj license)" for v
    by (cases license) (simp_all add: truthy_def)
  show ?thesis
    unfolding run
    by (auto simp: py_or_def truthy_def fail_def dest: dict)
qed

text \<open>C8 at the identifiers \<open>MIT\<close> and \<open>Apache-2.0\<close>, and at an answer without \<open>license\<close>.\<close>

theorem c8_license_check_witness:
  "validate_package_file (every_file minimal_descriptor) (license_api (JStr ''MIT''))
     abcd_json False None = Inr ()
   \<and> validate_package_file (every_file minimal_descriptor) (license_api (JStr ''Apache-2.0''))
       abcd_json False None
     = Inl (Exit (License_not_MIT ''abcd'' (JStr ''Apache-2.0'')))
   \<and> validate_package_file (every_file minimal_descriptor) no_license_api
       abcd_json False None
     = Inl (Exit (License_not_MIT ''abcd'' (JStr ''unknown'')))"
proof -
  have content: "every_file minimal_descriptor abcd_json = Parsed minimal_descriptor"
    by (simp add: every_file_def)
  have offline: "offline_checks minimal_descriptor (stem abcd_json) = Inr (''o'', ''r'')"
    by code_simp
  have name: "stem abcd_json = ''abcd''"
    by code_simp
  have reply: "http_json (license_api spdx_id)
                 (''https://api.github.com/repos/'' @ ''o'' @ ''/'' @ ''r'') None
                 = Response (JObj [(''license'', JObj [(''spdx_id'', spdx_id)])])" for spdx_id
    by (simp add: http_json_def license_api_def)
  have no_reply: "http_json no_license_api
                 (''https://api.github.com/repos/'' @ ''o'' @ ''/'' @ ''r'') None
                 = Response (JObj [])"
    by (simp add: http_json_def no_license_api_def)
  note c8 = c8_license_check
    [where fs = "every_file minimal_descriptor" and package_path = abcd_json,
     OF content offline]
  show ?thesis
    using
      c8 [OF reply [of "JStr ''MIT''"], of "[(''spdx_id'', JStr ''MIT'')]" "''MIT''"]
      c8 [OF reply [of "JStr ''Apache-2.0''"], of "[(''spdx_id'', JStr ''Apache-2.0'')]"
        "''Apache-2.0''"]
      c8 [OF no_reply, of "[]" "[]"]
    by (simp add: name)
qed

subsection \<open>Determinism and totality\<close>

text \<open>
  C9. Two offline runs over the same files with the same contents have the same
  outcome, and so the same first failure when there is one: the outcome does not depend
  on the order in which the directory lists the files, because the script sorts them,
  nor on the token or on the network.
\<close>

theorem c9_offline_deterministic:
  assumes "distinct paths" and "distinct paths'" and "set paths = set paths'"
  shows "main fs api True token (Some paths) = main fs api' True token' (Some paths')"
proof -
  have "sort paths = sort paths'"
    using assms by (rule sort_same_files)
  moreover have "length paths = length paths'"
    using assms by (metis distinct_card)
  moreover have "(paths = []) = (paths' = [])"
    using assms(3) by auto
  ultimately show ?thesis
    using validate_files_offline [of fs api token "sort paths'" "{}" api' token']
    by (simp add: main_Some)
qed

text \<open>C9 at two files listed in both orders, with and without a token.\<close>

theorem c9_offline_deterministic_witness:
  "distinct [[''packages'', ''b.json''], [''packages'', ''abcd.json'']]
   \<and> distinct [[''packages'', ''abcd.json''], [''packages'', ''b.json'']]
   \<and> set [[''packages'', ''b.json''], [''packages'', ''abcd.json'']]
       = set [[''packages'', ''abcd.json''], [''packages'', ''b.json'']]
   \<and> main (every_file minimal_descriptor) no_network True None
       (Some [[''packages'', ''b.json''], [''packages'', ''abcd.json'']])
     = main (every_file minimal_descriptor) no_license_api True (Some ''secret'')
       (Some [[''packages'', ''abcd.json''], [''packages'', ''b.json'']])"
proof -
  have d1: "distinct [[''packages'', ''b.json''], [''packages'', ''abcd.json'']]"
    by simp
  have d2: "distinct [[''packages'', ''abcd.json''], [''packages'', ''b.json'']]"
    by simp
  have same: "set [[''packages'', ''b.json''], [''packages'', ''abcd.json'']]
       = set [[''packages'', ''abcd.json''], [''packages'', ''b.json'']]"
    by auto
  from c9_offline_deterministic [OF d1 d2 same] d1 d2 same show ?thesis
    by blast
qed

text \<open>
  C10. Whatever JSON value the file parses to, and whatever values stand at its fields,
  the checks of lines 104 to 142 end by returning or by \<open>fail\<close>, never by a Python
  exception; so does offline validation of the file. The same holds for
  \<open>validate_release\<close> on any object, which is all its caller passes. In the model every
  operation on a value of the wrong type raises (\<open>TypeError\<close>, \<open>AttributeError\<close>,
  \<open>KeyError\<close>), so the statement says that each of them is guarded.
\<close>

theorem c10_offline_validation_never_crashes:
  "\<not> crashed (offline_checks data package_name)
   \<and> (fs package_path = Parsed data
        \<longrightarrow> \<not> crashed (validate_package_file fs api package_path True token))
   \<and> (is_dict release
        \<longrightarrow> \<not> crashed (fst (validate_release release package_name rel_idx seen_versions)))"
proof (intro conjI impI)
  show "\<not> crashed (offline_checks data package_name)"
    by (rule offline_checks_clean)
next
  assume "fs package_path = Parsed data"
  then show "\<not> crashed (validate_package_file fs api package_path True token)"
    using offline_checks_clean [of data "stem package_path"]
    by (auto simp: validate_package_file_Parsed crashed_and_then)
next
  assume "is_dict release"
  then obtain d where "release = JObj d"
    by (cases release) (simp_all add: is_dict_def)
  then show "\<not> crashed (fst (validate_release release package_name rel_idx seen_versions))"
    by (simp add: validate_release_clean)
qed

text \<open>
  C10 at a root that is an array, at a descriptor whose repository is a number and whose
  release is null, and at a release whose fields all have the wrong type.
\<close>

theorem c10_offline_validation_never_crashes_witness:
  "\<not> crashed (offline_checks (JArr [JInt 1]) ''abcd'')
   \<and> \<not> crashed (validate_package_file
         (every_file (descriptor_with (JStr ''abcd'') (JInt 5) [JNull])) no_network
         abcd_json True None)
   \<and> \<not> crashed (fst (validate_release (release_with (JInt 1) JNull (JStr ''x''))
         ''abcd'' 0 {}))"
proof -
  have content: "every_file (descriptor_with (JStr ''abcd'') (JInt 5) [JNull]) abcd_json
                 = Parsed (descriptor_with (JStr ''abcd'') (JInt 5) [JNull])"
    by (simp add: every_file_def)
  have dict: "is_dict (release_with (JInt 1) JNull (JStr ''x''))"
    by (simp add: release_with_def is_dict_def)
  from c10_offline_validation_never_crashes
    [of "JArr [JInt 1]" "''abcd''" "every_file (descriptor_with (JStr ''abcd'') (JInt 5) [JNull])"
      abcd_json]
  have "\<not> crashed (offline_checks (JArr [JInt 1]) ''abcd'')"
    by blast
  moreover
  from c10_offline_validation_never_crashes
    [where fs = "every_file (descriptor_with (JStr ''abcd'') (JInt 5) [JNull])"
       and package_path = abcd_json
       and data = "descriptor_with (JStr ''abcd'') (JInt 5) [JNull]"] content
  have "\<not> crashed (validate_package_file
         (every_file (descriptor_with (JStr ''abcd'') (JInt 5) [JNull])) no_network
         abcd_json True None)"
    by blast
  moreover
  from c10_offline_validation_never_crashes
    [where release = "release_with (JInt 1) JNull (JStr ''x'')"] dict
  have "\<not> crashed (fst (validate_release (release_with (JInt 1) JNull (JStr ''x''))
         ''abcd'' 0 {}))"
    by blast
  ultimately show ?thesis
    by blast
qed

end
